theory Spec2Isabelle
  imports Main
begin

section \<open>Data model\<close>

text \<open>
  A card is a JavaScript object. Every property the repository and the relationship
  synchronizer read or write is a field of the record below, and \<open>None\<close> is a property
  that the object does not have. An own property whose value is \<^verbatim>\<open>null\<close> or
  \<^verbatim>\<open>undefined\<close> has no counterpart, with one exception: for \<open>number\<close>, which the form
  sets to \<^verbatim>\<open>null\<close> when the input is empty and which \<^verbatim>\<open>createCard\<close> and \<^verbatim>\<open>updateCard\<close>
  overwrite before they copy \<^verbatim>\<open>cardData\<close>, \<open>None\<close> is every value that is not a number.
  The argument \<^verbatim>\<open>cardData\<close> of \<^verbatim>\<open>createCard\<close>/\<^verbatim>\<open>updateCard\<close> and the cards of an
  import file are objects of the same shape, so they share the record.

  An id, and an element of a relationship array, is a string, or one of the members that
  every plain object inherits from \<^verbatim>\<open>Object.prototype\<close>: the import looks ids up in a
  plain object, and finds such a member under its name. Two members are the same object
  exactly when they have the same name, so \<^verbatim>\<open>===\<close> is equality on \<open>ref\<close>. Types are
  strings and timestamps natural numbers (milliseconds). A number is a double with an
  integer value, given as that integer. The seven relationship properties are looked up
  by name in the source (\<^verbatim>\<open>card[field]\<close>), so they are a map from the property name to
  the array.
\<close>

datatype ref = Str string | Member string

datatype field =
    RelatedLocations | RelatedCharacters | RelatedEvents
  | AdjacentLocations | PresentCharacters | PresentLocations
  | Bonds

record card =
  card_id :: "ref option"
  card_type :: "string option"
  number :: "int option"
  name :: "string option"
  createdAt :: "nat option"
  updatedAt :: "nat option"
  description :: "string option"
  consequences :: "string option"
  hooks :: "string option"
  rel :: "field \<Rightarrow> ref list option"

definition emptyObj :: card where
  "emptyObj = \<lparr> card_id = None, card_type = None, number = None, name = None,
                createdAt = None, updatedAt = None, description = None,
                consequences = None, hooks = None, rel = Map.empty \<rparr>"

text \<open>Object spread \<^verbatim>\<open>{...a, ...b}\<close>: every property present in \<open>b\<close> wins.\<close>

definition orElse :: "'a option \<Rightarrow> 'a option \<Rightarrow> 'a option" where
  "orElse y x = (case y of Some v \<Rightarrow> Some v | None \<Rightarrow> x)"

definition spread :: "card \<Rightarrow> card \<Rightarrow> card" where
  "spread a b =
     \<lparr> card_id = orElse (card_id b) (card_id a),
       card_type = orElse (card_type b) (card_type a),
       number = orElse (number b) (number a),
       name = orElse (name b) (name a),
       createdAt = orElse (createdAt b) (createdAt a),
       updatedAt = orElse (updatedAt b) (updatedAt a),
       description = orElse (description b) (description a),
       consequences = orElse (consequences b) (consequences a),
       hooks = orElse (hooks b) (hooks a),
       rel = (rel a) ++ (rel b) \<rparr>"

text \<open>\<^verbatim>\<open>!x\<close> for a number: absent or zero. \<^verbatim>\<open>c.number || 0\<close>.\<close>

definition falsyNum :: "int option \<Rightarrow> bool" where
  "falsyNum x = (case x of None \<Rightarrow> True | Some n \<Rightarrow> n = 0)"

definition numOr0 :: "card \<Rightarrow> int" where
  "numOr0 c = (case number c of None \<Rightarrow> 0 | Some n \<Rightarrow> n)"

text \<open>
  \<^verbatim>\<open>x + 1\<close> on a double with an integer value. The sum is exact from \<open>-2^53\<close> up to
  \<open>2^53 - 1\<close>. Up to \<open>2^54\<close> in absolute value the doubles are the even integers and
  \<open>x + 1\<close> lies halfway between \<open>x\<close> and \<open>x + 2\<close>: the one with the even significand,
  the multiple of 4, is the result. Beyond, the result is \<open>x\<close>.
\<close>

definition plusOne :: "int \<Rightarrow> int" where
  "plusOne x =
     (if - (2 ^ 53) \<le> x \<and> x < 2 ^ 53 then x + 1
      else if - (2 ^ 54) < x \<and> x < 2 ^ 54 then (if x mod 4 = 0 then x else x + 2)
      else x)"

text \<open>\<^verbatim>\<open>Number.isSafeInteger\<close>: the integers on which the arithmetic above is exact.\<close>

definition isSafeInteger :: "int \<Rightarrow> bool" where
  "isSafeInteger x = (- (2 ^ 53) < x \<and> x < 2 ^ 53)"

section \<open>DataStore\<close>

text \<open>
  The store is \<^verbatim>\<open>this.cards\<close>, a list in insertion order (the navigation history is
  not touched by any operation below). \<^verbatim>\<open>generateId()\<close> and \<^verbatim>\<open>new Date()\<close> read the
  environment: the generated id \<open>gid\<close> and the clock value \<open>now\<close> are arguments, one
  clock value for all reads inside one synchronous call.
\<close>

type_synonym store = "card list"

definition getCardsByType :: "store \<Rightarrow> string option \<Rightarrow> card list" where
  "getCardsByType cards ty = filter (\<lambda>c. card_type c = ty) cards"

text \<open>\<^verbatim>\<open>Math.max(...xs)\<close> on a non-empty argument list.\<close>

fun mathMax :: "int list \<Rightarrow> int" where
  "mathMax [] = 0"
| "mathMax (x # xs) = fold max xs x"

definition getNextNumber :: "store \<Rightarrow> string option \<Rightarrow> int" where
  "getNextNumber cards ty =
     (let cardsOfType = filter (\<lambda>c. card_type c = ty) cards
      in if length cardsOfType = 0 then 1
         else plusOne (mathMax (map numOr0 cardsOfType)))"

text \<open>
  \<^verbatim>\<open>findIndex\<close>, and \<^verbatim>\<open>getCard\<close> (\<^verbatim>\<open>find\<close>): the first card with the id.
\<close>

fun findIndex :: "('a \<Rightarrow> bool) \<Rightarrow> 'a list \<Rightarrow> nat option" where
  "findIndex P [] = None"
| "findIndex P (x # xs) =
     (if P x then Some 0 else map_option Suc (findIndex P xs))"

definition getCard :: "store \<Rightarrow> ref \<Rightarrow> card option" where
  "getCard cards i = find (\<lambda>c. card_id c = Some i) cards"

text \<open>
  \<^verbatim>\<open>reorganizeNumbers(type, newNumber, excludeId)\<close>. The source sorts references to the
  cards of the type by number and then visits each once, mutating the card it visits;
  the model keeps the cards in store order, sorts their positions, and updates the store
  at each position. \<open>excludeId = None\<close> is the default \<^verbatim>\<open>null\<close>, which no id equals.
\<close>

definition notExcluded :: "ref option \<Rightarrow> card \<Rightarrow> bool" where
  "notExcluded excludeId c =
     (case excludeId of None \<Rightarrow> True | Some x \<Rightarrow> card_id c \<noteq> Some x)"

definition shiftCard :: "nat \<Rightarrow> int \<Rightarrow> card \<Rightarrow> card" where
  "shiftCard now newNumber c =
     (case number c of
        None \<Rightarrow> c
      | Some k \<Rightarrow> if k \<ge> newNumber
                  then c\<lparr> number := Some (plusOne k), updatedAt := Some now \<rparr>
                  else c)"

definition reorganizeNumbers ::
  "nat \<Rightarrow> string option \<Rightarrow> int \<Rightarrow> ref option \<Rightarrow> store \<Rightarrow> store" where
  "reorganizeNumbers now ty newNumber excludeId cards =
     (let cardsOfType =
            sort_key (\<lambda>i. numOr0 (cards ! i))
              (filter (\<lambda>i. card_type (cards ! i) = ty \<and> notExcluded excludeId (cards ! i))
                 [0 ..< length cards])
      in fold (\<lambda>i cs. cs[i := shiftCard now newNumber (cs ! i)]) cardsOfType cards)"

text \<open>\<^verbatim>\<open>createCard(cardData)\<close>: returns the new store and the card.\<close>

definition createCard :: "string \<Rightarrow> nat \<Rightarrow> card \<Rightarrow> store \<Rightarrow> store \<times> card" where
  "createCard gid now cardData cards =
     (let (cardData', cards') =
            (if falsyNum (number cardData) \<or> numOr0 cardData < 1
             then (cardData\<lparr> number := Some (getNextNumber cards (card_type cardData)) \<rparr>, cards)
             else (case find (\<lambda>c. card_type c = card_type cardData
                                   \<and> number c = number cardData) cards of
                     Some existingCard \<Rightarrow>
                       (cardData,
                        reorganizeNumbers now (card_type cardData) (numOr0 cardData) None cards)
                   | None \<Rightarrow> (cardData, cards)));
          newCard = spread (emptyObj\<lparr> card_id := Some (Str gid), createdAt := Some now,
                                     updatedAt := Some now \<rparr>) cardData'
      in (cards' @ [newCard], newCard))"

text \<open>\<^verbatim>\<open>updateCard(id, cardData)\<close>: the card is \<open>None\<close> for the source's \<^verbatim>\<open>null\<close>.\<close>

definition updateCard :: "nat \<Rightarrow> ref \<Rightarrow> card \<Rightarrow> store \<Rightarrow> store \<times> card option" where
  "updateCard now i cardData cards =
     (case findIndex (\<lambda>c. card_id c = Some i) cards of
        None \<Rightarrow> (cards, None)
      | Some index \<Rightarrow>
          (let existingCard = cards ! index;
               (cardData', cards') =
                 (if \<not> falsyNum (number cardData) \<and> number cardData \<noteq> number existingCard
                  then (case find (\<lambda>c. card_type c = card_type cardData
                                        \<and> number c = number cardData
                                        \<and> card_id c \<noteq> Some i) cards of
                          Some conflictCard \<Rightarrow>
                            (cardData,
                             reorganizeNumbers now (card_type cardData) (numOr0 cardData)
                               (Some i) cards)
                        | None \<Rightarrow> (cardData, cards))
                  else if falsyNum (number cardData)
                  then (cardData\<lparr> number := number existingCard \<rparr>, cards)
                  else (cardData, cards));
               updated = (spread (cards' ! index) cardData')\<lparr> updatedAt := Some now \<rparr>
           in (cards'[index := updated], Some updated)))"

text \<open>\<^verbatim>\<open>deleteCard(id)\<close>: strips the id from three properties of every card.\<close>

definition stripField :: "ref \<Rightarrow> field \<Rightarrow> card \<Rightarrow> card" where
  "stripField i f c =
     (case rel c f of
        None \<Rightarrow> c
      | Some xs \<Rightarrow> c\<lparr> rel := (rel c)(f \<mapsto> filter (\<lambda>x. x \<noteq> i) xs) \<rparr>)"

definition deleteCard :: "ref \<Rightarrow> store \<Rightarrow> store \<times> bool" where
  "deleteCard i cards =
     (case findIndex (\<lambda>c. card_id c = Some i) cards of
        None \<Rightarrow> (cards, False)
      | Some index \<Rightarrow>
          (let cards' = map (\<lambda>c. stripField i Bonds
                                   (stripField i PresentCharacters
                                     (stripField i AdjacentLocations c))) cards
           in (take index cards' @ drop (Suc index) cards', True)))"

text \<open>
  \<^verbatim>\<open>ensureAllCardsHaveNumbers()\<close>: per type, the positions of the cards of the type
  sorted by \<^verbatim>\<open>createdAt || 0\<close> (the sort is stable), then one pass that carries
  \<^verbatim>\<open>nextNumber\<close>.
\<close>

definition createdOr0 :: "card \<Rightarrow> nat" where
  "createdOr0 c = (case createdAt c of None \<Rightarrow> 0 | Some t \<Rightarrow> t)"

definition ensureStep :: "nat \<Rightarrow> store \<times> int \<Rightarrow> store \<times> int" where
  "ensureStep i = (\<lambda>(cs, nextNumber).
     (let c = cs ! i;
          c' = (if falsyNum (number c) \<or> numOr0 c < 1
                then c\<lparr> number := Some nextNumber \<rparr> else c)
      in (cs[i := c'], plusOne (max nextNumber (numOr0 c')))))"

definition ensureType :: "string \<Rightarrow> store \<Rightarrow> store" where
  "ensureType ty cards =
     (let cardsOfType =
            sort_key (\<lambda>i. createdOr0 (cards ! i))
              (filter (\<lambda>i. card_type (cards ! i) = Some ty) [0 ..< length cards])
      in fst (fold ensureStep cardsOfType (cards, 1)))"

definition ensureAllCardsHaveNumbers :: "store \<Rightarrow> store" where
  "ensureAllCardsHaveNumbers cards =
     fold ensureType [''evento'', ''local'', ''personagem''] cards"

section \<open>Relationship synchronizer\<close>

text \<open>
  \<^verbatim>\<open>connectionMappings[cardType]\<close> in the order of \<^verbatim>\<open>Object.entries\<close>: pairs of the
  property of the saved card and \<^verbatim>\<open>config.targetField\<close>.
\<close>

definition connectionMappings :: "string option \<Rightarrow> (field \<times> field) list" where
  "connectionMappings cardType =
     (if cardType = Some ''evento''
      then [(RelatedLocations, RelatedEvents), (RelatedCharacters, RelatedEvents)]
      else if cardType = Some ''local''
      then [(AdjacentLocations, AdjacentLocations), (PresentCharacters, PresentLocations)]
      else if cardType = Some ''personagem''
      then [(Bonds, Bonds)]
      else [])"

definition connectionFields :: "field list" where
  "connectionFields =
     [RelatedLocations, RelatedCharacters, RelatedEvents,
      AdjacentLocations, PresentCharacters, PresentLocations, Bonds]"

text \<open>The chain of conditionals of \<^verbatim>\<open>addMutualConnection\<close> that picks the property.\<close>

definition fieldToUpdate :: "string option \<Rightarrow> string option \<Rightarrow> field \<Rightarrow> field" where
  "fieldToUpdate targetType sourceType targetField =
     (if targetType = Some ''local'' then
        (if sourceType = Some ''evento'' then RelatedEvents
         else if sourceType = Some ''local'' then AdjacentLocations
         else if sourceType = Some ''personagem'' then PresentCharacters
         else targetField)
      else if targetType = Some ''personagem'' then
        (if sourceType = Some ''evento'' then RelatedEvents
         else if sourceType = Some ''local'' then PresentLocations
         else if sourceType = Some ''personagem'' then Bonds
         else targetField)
      else if targetType = Some ''evento'' then
        (if sourceType = Some ''local'' then RelatedLocations
         else if sourceType = Some ''personagem'' then RelatedCharacters
         else targetField)
      else targetField)"

text \<open>\<^verbatim>\<open>x || []\<close> for an array property.\<close>

definition orEmpty :: "ref list option \<Rightarrow> ref list" where
  "orEmpty x = (case x of None \<Rightarrow> [] | Some xs \<Rightarrow> xs)"

text \<open>
  \<^verbatim>\<open>addMutualConnection\<close>: the source pushes onto the target's array and then stores the
  array through \<^verbatim>\<open>updateCard\<close>; no other card shares the array.
\<close>

definition addMutualConnection ::
  "nat \<Rightarrow> ref \<Rightarrow> ref \<Rightarrow> field \<Rightarrow> string option \<Rightarrow> store \<Rightarrow> store" where
  "addMutualConnection now targetCardId sourceCardId targetField sourceType cards =
     (case getCard cards targetCardId of
        None \<Rightarrow> cards
      | Some targetCard \<Rightarrow>
          (let f = fieldToUpdate (card_type targetCard) sourceType targetField;
               arr = orEmpty (rel targetCard f)
           in if sourceCardId \<in> set arr then cards
              else fst (updateCard now targetCardId
                          (emptyObj\<lparr> rel := [f \<mapsto> arr @ [sourceCardId]] \<rparr>) cards)))"

text \<open>
  \<^verbatim>\<open>removeMutualConnection\<close>: every one of the seven properties of the target that
  contains the source id is filtered and stored.
\<close>

definition removeFromField :: "nat \<Rightarrow> ref \<Rightarrow> ref \<Rightarrow> card \<Rightarrow> field \<Rightarrow> store \<Rightarrow> store" where
  "removeFromField now targetCardId sourceCardId targetCard f cards =
     (case rel targetCard f of
        None \<Rightarrow> cards
      | Some xs \<Rightarrow>
          if sourceCardId \<in> set xs
          then fst (updateCard now targetCardId
                      (emptyObj\<lparr> rel := [f \<mapsto> filter (\<lambda>i. i \<noteq> sourceCardId) xs] \<rparr>) cards)
          else cards)"

definition removeMutualConnection :: "nat \<Rightarrow> ref \<Rightarrow> ref \<Rightarrow> store \<Rightarrow> store" where
  "removeMutualConnection now targetCardId sourceCardId cards =
     (case getCard cards targetCardId of
        None \<Rightarrow> cards
      | Some targetCard \<Rightarrow>
          fold (removeFromField now targetCardId sourceCardId targetCard)
            connectionFields cards)"

text \<open>
  \<^verbatim>\<open>updateMutualConnections(card, cardData, previousConnections)\<close>. \<open>card\<close> is the
  stored card returned by the repository, which always has an id; \<open>None\<close> for
  \<^verbatim>\<open>previousConnections\<close> is \<^verbatim>\<open>null\<close>.
\<close>

definition previousConnsOf ::
  "(field \<Rightarrow> ref list option) option \<Rightarrow> field \<Rightarrow> ref list" where
  "previousConnsOf previousConnections fieldName =
     (case previousConnections of None \<Rightarrow> [] | Some p \<Rightarrow> orEmpty (p fieldName))"

definition syncField ::
  "nat \<Rightarrow> ref \<Rightarrow> string option \<Rightarrow> card \<Rightarrow> (field \<Rightarrow> ref list option) option
     \<Rightarrow> field \<times> field \<Rightarrow> store \<Rightarrow> store" where
  "syncField now cardId cardType cardData previousConnections = (\<lambda>(fieldName, targetField) cards.
     (let currentConnections = orEmpty (rel cardData fieldName);
          previousConns = previousConnsOf previousConnections fieldName;
          addedConnections = filter (\<lambda>i. i \<notin> set previousConns) currentConnections;
          removedConnections = filter (\<lambda>i. i \<notin> set currentConnections) previousConns;
          cards1 = fold (\<lambda>targetId. addMutualConnection now targetId cardId targetField cardType)
                     addedConnections cards
      in fold (\<lambda>targetId. removeMutualConnection now targetId cardId)
           removedConnections cards1))"

definition updateMutualConnections ::
  "nat \<Rightarrow> card \<Rightarrow> card \<Rightarrow> (field \<Rightarrow> ref list option) option \<Rightarrow> store \<Rightarrow> store" where
  "updateMutualConnections now theCard cardData previousConnections cards =
     (case card_id theCard of
        None \<Rightarrow> cards
      | Some cardId \<Rightarrow>
          fold (syncField now cardId (card_type theCard) cardData previousConnections)
            (connectionMappings (card_type theCard)) cards)"

text \<open>\<^verbatim>\<open>removeAllMutualConnections(card)\<close> and the deletion flow of \<^verbatim>\<open>confirmDeleteCard\<close>.\<close>

definition removeAllMutualConnections :: "nat \<Rightarrow> card \<Rightarrow> store \<Rightarrow> store" where
  "removeAllMutualConnections now theCard cards =
     (case card_id theCard of
        None \<Rightarrow> cards
      | Some cardId \<Rightarrow>
          fold (\<lambda>f. fold (\<lambda>targetId. removeMutualConnection now targetId cardId)
                       (orEmpty (rel theCard f)))
            connectionFields cards)"

definition confirmDeleteCard :: "nat \<Rightarrow> ref \<Rightarrow> store \<Rightarrow> store" where
  "confirmDeleteCard now cardId cards =
     (case getCard cards cardId of
        None \<Rightarrow> cards
      | Some theCard \<Rightarrow> fst (deleteCard cardId (removeAllMutualConnections now theCard cards)))"

text \<open>
  The part of \<^verbatim>\<open>handleFormSubmit\<close> after the form has been read: it stores the card, keeps the
  five previous arrays when editing, and calls the synchronizer.
\<close>

definition previousOf :: "card \<Rightarrow> field \<Rightarrow> ref list option" where
  "previousOf existingCard f =
     (if f \<in> {RelatedLocations, RelatedCharacters, AdjacentLocations, PresentCharacters, Bonds}
      then Some (orEmpty (rel existingCard f)) else None)"

definition saveNew :: "string \<Rightarrow> nat \<Rightarrow> card \<Rightarrow> store \<Rightarrow> store" where
  "saveNew gid now cardData cards =
     (let (cards1, theCard) = createCard gid now cardData cards
      in updateMutualConnections now theCard
           (cardData\<lparr> number := number theCard \<rparr>) None cards1)"

definition saveEdit :: "nat \<Rightarrow> ref \<Rightarrow> card \<Rightarrow> store \<Rightarrow> store option" where
  "saveEdit now editingCardId cardData cards =
     (let previousConnections = map_option previousOf (getCard cards editingCardId)
      in case updateCard now editingCardId cardData cards of
           (cards1, None) \<Rightarrow> None
         | (cards1, Some theCard) \<Rightarrow>
             Some (updateMutualConnections now theCard
                     (cardData\<lparr> number := number theCard \<rparr>) previousConnections cards1))"

section \<open>Export and import\<close>

text \<open>
  \<^verbatim>\<open>exportCards\<close> writes the store as JSON and \<^verbatim>\<open>importCards\<close> parses it back. On a store
  whose ids and array elements are strings the round trip through JSON is the identity
  on the properties of the record, so the file is the list of cards; JSON has no
  counterpart of an inherited member, and the export of a store that holds one is not
  modelled. Nothing is exported from an empty store.
\<close>

definition exportCards :: "store \<Rightarrow> card list option" where
  "exportCards cards = (if length cards = 0 then None else Some cards)"

text \<open>
  \<^verbatim>\<open>idMapping\<close> is a plain object, \<^verbatim>\<open>{}\<close>. The model keeps its own properties in a map.
  An assignment \<^verbatim>\<open>idMapping[key] = newId\<close> creates or overwrites an own property, except
  under the key \<^verbatim>\<open>__proto__\<close>, where the inherited setter ignores a string. A lookup
  \<^verbatim>\<open>idMapping[key]\<close> finds the own property, else the member inherited from
  \<^verbatim>\<open>Object.prototype\<close> under one of its twelve names, else \<^verbatim>\<open>undefined\<close>.
\<close>

definition objectPrototypeKeys :: "string list" where
  "objectPrototypeKeys =
     [''constructor'', ''__defineGetter__'', ''__defineSetter__'', ''hasOwnProperty'',
      ''__lookupGetter__'', ''__lookupSetter__'', ''isPrototypeOf'',
      ''propertyIsEnumerable'', ''toString'', ''valueOf'', ''__proto__'',
      ''toLocaleString'']"

definition assignKey ::
  "(string \<Rightarrow> string option) \<Rightarrow> string \<Rightarrow> string \<Rightarrow> (string \<Rightarrow> string option)" where
  "assignKey idMapping key newId =
     (if key = ''__proto__'' then idMapping else idMapping(key \<mapsto> newId))"

definition lookupKey :: "(string \<Rightarrow> string option) \<Rightarrow> string \<Rightarrow> ref option" where
  "lookupKey idMapping key =
     (case idMapping key of
        Some newId \<Rightarrow> Some (Str newId)
      | None \<Rightarrow> if key \<in> set objectPrototypeKeys then Some (Member key) else None)"

text \<open>
  A value used as a property key, or spliced into a template string, is converted to a
  string: \<^verbatim>\<open>"undefined"\<close> for a missing id, and for an inherited member the text that
  V8 prints for it (\<^verbatim>\<open>__proto__\<close> is \<^verbatim>\<open>Object.prototype\<close> itself, \<^verbatim>\<open>constructor\<close> is
  the function \<^verbatim>\<open>Object\<close>, the others are functions of their own name). The ids and
  array elements of a parsed JSON file are strings; a file whose ids are \<^verbatim>\<open>null\<close>,
  numbers or objects is not modelled.
\<close>

definition memberText :: "string \<Rightarrow> string" where
  "memberText k =
     (if k = ''__proto__'' then ''[object Object]''
      else if k = ''constructor'' then ''function Object() { [native code] }''
      else ''function '' @ k @ ''() { [native code] }'')"

definition refText :: "ref \<Rightarrow> string" where
  "refText r = (case r of Str s \<Rightarrow> s | Member k \<Rightarrow> memberText k)"

definition keyOf :: "ref option \<Rightarrow> string" where
  "keyOf i = (case i of None \<Rightarrow> ''undefined'' | Some r \<Rightarrow> refText r)"

text \<open>Truthiness of an id: every value but the empty string.\<close>

definition truthy :: "ref \<Rightarrow> bool" where
  "truthy r = (case r of Str s \<Rightarrow> s \<noteq> [] | Member k \<Rightarrow> True)"

text \<open>
  \<^verbatim>\<open>updateCardIdsInContent\<close>: \<^verbatim>\<open>content.replace(/data-card-id="([^"]+)"/g, ...)\<close>, a scan
  from the left for the attribute, a non-empty run without a quote and the closing quote.
\<close>

definition quoteChar :: char where
  "quoteChar = CHR 0x22"

definition attrPrefix :: string where
  "attrPrefix = ''data-card-id='' @ [quoteChar]"

fun stripPrefix :: "string \<Rightarrow> string \<Rightarrow> string option" where
  "stripPrefix [] s = Some s"
| "stripPrefix (p # ps) [] = None"
| "stripPrefix (p # ps) (c # cs) = (if p = c then stripPrefix ps cs else None)"

definition matchAt :: "string \<Rightarrow> (string \<times> string) option" where
  "matchAt s =
     (case stripPrefix attrPrefix s of
        None \<Rightarrow> None
      | Some r \<Rightarrow>
          (let oldId = takeWhile (\<lambda>c. c \<noteq> quoteChar) r
           in if oldId = [] then None
              else (case dropWhile (\<lambda>c. c \<noteq> quoteChar) r of
                      [] \<Rightarrow> None
                    | q # rest \<Rightarrow> Some (oldId, rest))))"

lemma stripPrefix_length: "stripPrefix p s = Some r \<Longrightarrow> length r \<le> length s"
  by (induction p s rule: stripPrefix.induct) (auto split: if_splits)

lemma matchAt_shorter: "matchAt s = Some (oldId, rest) \<Longrightarrow> length rest < length s"
proof -
  assume m: "matchAt s = Some (oldId, rest)"
  then obtain r q where r: "stripPrefix attrPrefix s = Some r"
    and d: "dropWhile (\<lambda>c. c \<noteq> quoteChar) r = q # rest"
    by (auto simp: matchAt_def Let_def split: option.splits if_splits list.splits)
  have "length (dropWhile (\<lambda>c. c \<noteq> quoteChar) r) \<le> length r"
    by (rule length_dropWhile_le)
  with d have "length rest < length r" by simp
  with stripPrefix_length [OF r] show ?thesis by simp
qed

text \<open>The replacement for one match: \<^verbatim>\<open>newId ? `data-card-id="${newId}"` : match\<close>.\<close>

definition replacement :: "(string \<Rightarrow> string option) \<Rightarrow> string \<Rightarrow> string" where
  "replacement idMapping oldId =
     (case lookupKey idMapping oldId of
        None \<Rightarrow> attrPrefix @ oldId @ [quoteChar]
      | Some newId \<Rightarrow>
          if truthy newId then attrPrefix @ refText newId @ [quoteChar]
          else attrPrefix @ oldId @ [quoteChar])"

function updateCardIdsInContent :: "(string \<Rightarrow> string option) \<Rightarrow> string \<Rightarrow> string" where
  "updateCardIdsInContent idMapping [] = []"
| "updateCardIdsInContent idMapping (c # cs) =
     (case matchAt (c # cs) of
        None \<Rightarrow> c # updateCardIdsInContent idMapping cs
      | Some (oldId, rest) \<Rightarrow>
          replacement idMapping oldId @ updateCardIdsInContent idMapping rest)"
  by pat_completeness auto
termination
  by (relation "measure (\<lambda>(m, s). length s)") (auto dest: matchAt_shorter)

definition updateContent :: "(string \<Rightarrow> string option) \<Rightarrow> string option \<Rightarrow> string option" where
  "updateContent idMapping content =
     (case content of
        None \<Rightarrow> None
      | Some s \<Rightarrow> if s \<noteq> [] then Some (updateCardIdsInContent idMapping s) else Some s)"

text \<open>
  \<^verbatim>\<open>importCards\<close>. \<open>fileCards = None\<close> is a file whose \<^verbatim>\<open>cards\<close> is missing or not an
  array: the source throws, catches and reports, and the store is as before. \<open>gids\<close> are
  the ids \<^verbatim>\<open>generateId()\<close> returns in the first pass, one for each card of the file.
\<close>

datatype error = ImportFormatError

definition buildIdMapping :: "card list \<Rightarrow> string list \<Rightarrow> (string \<Rightarrow> string option)" where
  "buildIdMapping fileCards gids =
     fold (\<lambda>(c, newId) idMapping. assignKey idMapping (keyOf (card_id c)) newId)
       (zip fileCards gids) Map.empty"

text \<open>\<^verbatim>\<open>arr.map(id => idMapping[id] || id).filter(id => id)\<close>\<close>

definition remapId :: "(string \<Rightarrow> string option) \<Rightarrow> ref \<Rightarrow> ref" where
  "remapId idMapping i =
     (case lookupKey idMapping (refText i) of
        None \<Rightarrow> i
      | Some newId \<Rightarrow> if truthy newId then newId else i)"

definition remapIds :: "(string \<Rightarrow> string option) \<Rightarrow> ref list \<Rightarrow> ref list" where
  "remapIds idMapping xs = filter truthy (map (remapId idMapping) xs)"

definition remapField :: "(string \<Rightarrow> string option) \<Rightarrow> field \<Rightarrow> card \<Rightarrow> card" where
  "remapField idMapping f c =
     (case rel c f of
        None \<Rightarrow> c
      | Some xs \<Rightarrow> c\<lparr> rel := (rel c)(f \<mapsto> remapIds idMapping xs) \<rparr>)"

definition importOne :: "nat \<Rightarrow> (string \<Rightarrow> string option) \<Rightarrow> store \<Rightarrow> card \<Rightarrow> card" where
  "importOne now idMapping cards c =
     (let c1 = c\<lparr> card_id := lookupKey idMapping (keyOf (card_id c)) \<rparr>;
          c2 = remapField idMapping RelatedCharacters
                 (remapField idMapping RelatedLocations
                   (remapField idMapping Bonds
                     (remapField idMapping PresentCharacters
                       (remapField idMapping AdjacentLocations c1))));
          c3 = c2\<lparr> description := updateContent idMapping (description c2),
                   consequences := updateContent idMapping (consequences c2),
                   hooks := updateContent idMapping (hooks c2) \<rparr>;
          c4 = (if falsyNum (number c3)
                then c3\<lparr> number := Some (getNextNumber cards (card_type c3)) \<rparr>
                else c3)
      in c4\<lparr> createdAt := Some now, updatedAt := Some now \<rparr>)"

definition importCards ::
  "nat \<Rightarrow> string list \<Rightarrow> card list option \<Rightarrow> store \<Rightarrow> error + store" where
  "importCards now gids fileCards cards =
     (case fileCards of
        None \<Rightarrow> Inl ImportFormatError
      | Some incoming \<Rightarrow>
          (let idMapping = buildIdMapping incoming gids;
               cards1 = fold (\<lambda>c cs. cs @ [importOne now idMapping cs c]) incoming cards
           in Inr (ensureAllCardsHaveNumbers cards1)))"

section \<open>Concrete stores used below\<close>

text \<open>The \<^verbatim>\<open>cardData\<close> of a form with a type and a name and an empty number input.\<close>

definition formData :: "string \<Rightarrow> string \<Rightarrow> card" where
  "formData ty nm = emptyObj\<lparr> card_type := Some ty, name := Some nm \<rparr>"

text \<open>Two locations created one after the other: numbers 1 and 2.\<close>

definition twoLocals :: store where
  "twoLocals = fst (createCard ''B'' 2 (formData ''local'' ''Bridge'')
                 (fst (createCard ''A'' 1 (formData ''local'' ''Abbey'') [])))"

text \<open>Two locations, the older one without a number, the newer one with number 1.\<close>

definition legacyCards :: store where
  "legacyCards =
     [(formData ''local'' ''Abbey'')\<lparr> card_id := Some (Str ''A''), createdAt := Some 1 \<rparr>,
      (formData ''local'' ''Bridge'')\<lparr> card_id := Some (Str ''B''), createdAt := Some 2,
                                          number := Some 1 \<rparr>]"

text \<open>
  The two locations after two edits through \<^verbatim>\<open>updateCard\<close>: the first is given the
  number -1, then the second the number 1.
\<close>

definition invalidStore :: store where
  "invalidStore =
     fst (updateCard 4 (Str ''B'') ((formData ''local'' ''Bridge'')\<lparr> number := Some 1 \<rparr>)
       (fst (updateCard 3 (Str ''A'') ((formData ''local'' ''Abbey'')\<lparr> number := Some (- 1) \<rparr>)
          twoLocals)))"

text \<open>A location and an event, both with number 1 in their own type.\<close>

definition mixedStore :: store where
  "mixedStore = fst (createCard ''E'' 2 (formData ''evento'' ''Eclipse'')
                  (fst (createCard ''A'' 1 (formData ''local'' ''Abbey'') [])))"

text \<open>
  A location saved through the form, then an event saved with the location among its
  connections; then the location edited and saved with no connection left.
\<close>

definition lakeData :: card where
  "lakeData = (formData ''local'' ''Lake'')
                \<lparr> rel := [AdjacentLocations \<mapsto> [], PresentCharacters \<mapsto> [],
                           RelatedEvents \<mapsto> []] \<rparr>"

definition newEventData :: card where
  "newEventData = (formData ''evento'' ''Eclipse'')
                    \<lparr> rel := [RelatedLocations \<mapsto> [Str ''L''], RelatedCharacters \<mapsto> []] \<rparr>"

definition lakeStore :: store where
  "lakeStore = saveNew ''L'' 1 lakeData []"

definition linkedStore :: store where
  "linkedStore = saveNew ''E'' 2 newEventData lakeStore"

definition unlinkedStore :: store where
  "unlinkedStore =
     (case saveEdit 3 (Str ''L'') (lakeData\<lparr> number := Some 1 \<rparr>) linkedStore of
        None \<Rightarrow> []
      | Some cards \<Rightarrow> cards)"

text \<open>The export of \<open>linkedStore\<close> imported into an empty store.\<close>

definition importedStore :: store where
  "importedStore =
     (case importCards 9 [''L2'', ''E2''] (exportCards linkedStore) [] of
        Inl e \<Rightarrow> []
      | Inr cards \<Rightarrow> cards)"

text \<open>A location with the explicit number 1.\<close>

definition caveData :: card where
  "caveData = (formData ''local'' ''Cave'')\<lparr> number := Some 1 \<rparr>"

text \<open>A location created with the explicit number \<open>2^53\<close>, as the form reads it.\<close>

definition bigData :: card where
  "bigData = (formData ''local'' ''Abyss'')\<lparr> number := Some (2 ^ 53) \<rparr>"

definition bigStore :: store where
  "bigStore = fst (createCard ''A'' 1 bigData [])"

text \<open>
  A file with two locations that both carry number 1, imported into the empty store:
  the import keeps the numbers it finds.
\<close>

definition dupStore :: store where
  "dupStore =
     (case importCards 1 [''A2'', ''B2'']
             (Some [(formData ''local'' ''Abbey'')\<lparr> card_id := Some (Str ''A''), number := Some 1 \<rparr>,
                    (formData ''local'' ''Bridge'')\<lparr> card_id := Some (Str ''B''), number := Some 1 \<rparr>])
             [] of
        Inl e \<Rightarrow> []
      | Inr cards \<Rightarrow> cards)"

text \<open>
  A file with one character whose \<open>bonds\<close> names an id that no card of the file has,
  imported into the empty store.
\<close>

definition ghostStore :: store where
  "ghostStore =
     (case importCards 9 [''A2'']
             (Some [(formData ''personagem'' ''Ann'')
                      \<lparr> card_id := Some (Str ''A''), number := Some 1,
                         rel := [Bonds \<mapsto> [Str ''ghost'']] \<rparr>])
             [] of
        Inl e \<Rightarrow> []
      | Inr cards \<Rightarrow> cards)"

text \<open>
  The same file with \<open>bonds\<close> naming a member of \<^verbatim>\<open>Object.prototype\<close>, and with an empty
  reference.
\<close>

definition memberStore :: store where
  "memberStore =
     (case importCards 9 [''A2'']
             (Some [(formData ''personagem'' ''Ann'')
                      \<lparr> card_id := Some (Str ''A''), number := Some 1,
                         rel := [Bonds \<mapsto> [Str ''constructor'', Str [], Str ''A'']] \<rparr>])
             [] of
        Inl e \<Rightarrow> []
      | Inr cards \<Rightarrow> cards)"

text \<open>
  The event of \<open>unlinkedStore\<close> opened in the form and saved again as it is: its
  \<open>relatedLocations\<close> is \<open>[L]\<close> before and after.
\<close>

definition resavedStore :: store where
  "resavedStore =
     (case saveEdit 4 (Str ''E'') (newEventData\<lparr> number := Some 1 \<rparr>) unlinkedStore of
        None \<Rightarrow> []
      | Some cards \<Rightarrow> cards)"

section \<open>Notions used in the statements\<close>

text \<open>The numbers held by the cards of a type, in store order.\<close>

definition numbersOfType :: "store \<Rightarrow> string option \<Rightarrow> int list" where
  "numbersOfType cards ty = List.map_filter number (filter (\<lambda>c. card_type c = ty) cards)"

text \<open>Two stores with the same ids and types, position by position.\<close>

definition sameIds :: "store \<Rightarrow> store \<Rightarrow> bool" where
  "sameIds cs cs' = (map card_id cs' = map card_id cs \<and> map card_type cs' = map card_type cs)"

text \<open>The card that an update carrying one relationship property leaves in the store.\<close>

definition setRel :: "nat \<Rightarrow> field \<Rightarrow> ref list \<Rightarrow> card \<Rightarrow> card" where
  "setRel now f xs c = c\<lparr> rel := (rel c)(f \<mapsto> xs), updatedAt := Some now \<rparr>"

text \<open>The five relationship properties that \<^verbatim>\<open>importCards\<close> rewrites.\<close>

definition rewrittenFields :: "field set" where
  "rewrittenFields =
     {AdjacentLocations, PresentCharacters, Bonds, RelatedLocations, RelatedCharacters}"

section \<open>Numbering\<close>

lemma mathMax_Max:
  assumes "xs \<noteq> []"
  shows "mathMax xs = Max (set xs)"
proof (cases xs)
  case Nil
  with assms show ?thesis by simp
next
  case (Cons a list)
  then show ?thesis using Max.set_eq_fold [of a list] by simp
qed

lemma plusOne_exact: "- (2 ^ 53) \<le> x \<Longrightarrow> x < 2 ^ 53 \<Longrightarrow> plusOne x = x + 1"
  by (simp add: plusOne_def)

lemma Max_safe:
  assumes "\<forall>c \<in> set cards. card_type c = ty \<longrightarrow> isSafeInteger (numOr0 c)"
      and "getCardsByType cards ty \<noteq> []"
  shows "isSafeInteger (Max (set (map numOr0 (getCardsByType cards ty))))"
proof -
  let ?ns = "set (map numOr0 (getCardsByType cards ty))"
  from assms(2) have "finite ?ns" "?ns \<noteq> {}" by auto
  then have "Max ?ns \<in> ?ns" by (rule Max_in)
  with assms(1) show ?thesis by (auto simp: getCardsByType_def)
qed

lemma getNextNumber_safe:
  assumes "\<forall>c \<in> set cards. card_type c = ty \<longrightarrow> isSafeInteger (numOr0 c)"
  shows "getNextNumber cards ty =
           (if getCardsByType cards ty = [] then 1
            else Max (set (map numOr0 (getCardsByType cards ty))) + 1)"
proof (cases "getCardsByType cards ty = []")
  case True
  then show ?thesis by (simp add: getNextNumber_def getCardsByType_def)
next
  case False
  from Max_safe [OF assms False]
  have "plusOne (Max (set (map numOr0 (getCardsByType cards ty))))
          = Max (set (map numOr0 (getCardsByType cards ty))) + 1"
    by (intro plusOne_exact) (simp_all add: isSafeInteger_def)
  with False show ?thesis
    by (simp add: getNextNumber_def getCardsByType_def Let_def mathMax_Max)
qed

lemma getNextNumber_above:
  assumes "\<forall>c \<in> set cards. card_type c = ty \<longrightarrow> isSafeInteger (numOr0 c)"
      and "c \<in> set cards" "card_type c = ty"
  shows "numOr0 c < getNextNumber cards ty"
proof -
  from assms(2,3) have in_cs: "c \<in> set (getCardsByType cards ty)"
    by (simp add: getCardsByType_def)
  then have ne: "getCardsByType cards ty \<noteq> []" by auto
  have "numOr0 c \<le> Max (set (map numOr0 (getCardsByType cards ty)))"
    using in_cs by (intro Max_ge) auto
  with ne getNextNumber_safe [OF assms(1)] show ?thesis by simp
qed

lemma fold_update_length:
  "length (fold (\<lambda>i cs. cs[i := g (cs ! i)]) js cs) = length cs"
  by (induction js arbitrary: cs) auto

lemma fold_update_nth:
  assumes "distinct js" "j < length cs"
  shows "fold (\<lambda>i cs. cs[i := g (cs ! i)]) js cs ! j
           = (if j \<in> set js then g (cs ! j) else cs ! j)"
  using assms
proof (induction js arbitrary: cs)
  case Nil
  then show ?case by simp
next
  case (Cons i js)
  let ?cs' = "cs[i := g (cs ! i)]"
  from Cons.prems have d: "distinct js" and ni: "i \<notin> set js" by auto
  from Cons.prems have j': "j < length ?cs'" by simp
  have "fold (\<lambda>i cs. cs[i := g (cs ! i)]) (i # js) cs ! j
          = fold (\<lambda>i cs. cs[i := g (cs ! i)]) js ?cs' ! j" by simp
  also have "\<dots> = (if j \<in> set js then g (?cs' ! j) else ?cs' ! j)"
    by (rule Cons.IH [OF d j'])
  also have "\<dots> = (if j \<in> set (i # js) then g (cs ! j) else cs ! j)"
    using ni Cons.prems(2) by (cases "j = i") auto
  finally show ?case .
qed

lemma reorganizeNumbers_map:
  "reorganizeNumbers now ty newNumber excludeId cards
     = map (\<lambda>c. if card_type c = ty \<and> notExcluded excludeId c
                 then shiftCard now newNumber c else c) cards"
proof (rule nth_equalityI)
  show "length (reorganizeNumbers now ty newNumber excludeId cards)
          = length (map (\<lambda>c. if card_type c = ty \<and> notExcluded excludeId c
                 then shiftCard now newNumber c else c) cards)"
    by (simp add: reorganizeNumbers_def fold_update_length)
next
  fix j
  assume "j < length (reorganizeNumbers now ty newNumber excludeId cards)"
  then have j: "j < length cards"
    by (simp add: reorganizeNumbers_def fold_update_length)
  then show "reorganizeNumbers now ty newNumber excludeId cards ! j
          = map (\<lambda>c. if card_type c = ty \<and> notExcluded excludeId c
                 then shiftCard now newNumber c else c) cards ! j"
    by (simp add: reorganizeNumbers_def fold_update_nth)
qed

lemma createCard_collision:
  assumes "number cardData = Some n" "1 \<le> n"
      and "\<exists>c \<in> set cards. card_type c = card_type cardData \<and> number c = Some n"
  shows "createCard gid now cardData cards =
           (map (\<lambda>c. if card_type c = card_type cardData then shiftCard now n c else c) cards
              @ [spread (emptyObj\<lparr> card_id := Some (Str gid), createdAt := Some now,
                                     updatedAt := Some now \<rparr>) cardData],
            spread (emptyObj\<lparr> card_id := Some (Str gid), createdAt := Some now,
                                     updatedAt := Some now \<rparr>) cardData)"
proof -
  from assms(3) obtain c where "c \<in> set cards" "card_type c = card_type cardData \<and> number c = number cardData"
    using assms(1) by auto
  then have "find (\<lambda>c. card_type c = card_type cardData \<and> number c = number cardData) cards \<noteq> None"
    by (auto simp: find_None_iff)
  then obtain e where "find (\<lambda>c. card_type c = card_type cardData \<and> number c = number cardData) cards = Some e"
    by auto
  with assms(1,2) show ?thesis
    by (simp add: createCard_def falsyNum_def numOr0_def reorganizeNumbers_map notExcluded_def Let_def)
qed

lemma shiftCard_exact:
  assumes "1 \<le> n" and "numOr0 c < 2 ^ 53"
  shows "shiftCard now n c
           = (case number c of
                None \<Rightarrow> c
              | Some k \<Rightarrow> if n \<le> k then c\<lparr> number := Some (k + 1), updatedAt := Some now \<rparr>
                          else c)"
  using assms
  by (auto simp: shiftCard_def numOr0_def plusOne_exact split: option.splits)

lemma numbersOfType_shift:
  assumes "1 \<le> n"
      and "\<forall>c \<in> set cards. card_type c = ty \<longrightarrow> numOr0 c < 2 ^ 53"
  shows "numbersOfType (map (\<lambda>c. if card_type c = ty then shiftCard now n c else c) cards) ty
           = map (\<lambda>k. if n \<le> k then k + 1 else k) (numbersOfType cards ty)"
  using assms(2)
proof (induction cards)
  case Nil
  then show ?case by (simp add: numbersOfType_def List.map_filter_simps)
next
  case (Cons c cards)
  then have IH: "numbersOfType (map (\<lambda>c. if card_type c = ty then shiftCard now n c else c) cards) ty
           = map (\<lambda>k. if n \<le> k then k + 1 else k) (numbersOfType cards ty)"
    by simp
  have app: "\<And>x xs. numbersOfType (x # xs) ty = numbersOfType [x] ty @ numbersOfType xs ty"
    by (simp add: numbersOfType_def map_filter_def)
  have one: "numbersOfType [if card_type c = ty then shiftCard now n c else c] ty
               = map (\<lambda>k. if n \<le> k then k + 1 else k) (numbersOfType [c] ty)"
  proof (cases "card_type c = ty")
    case True
    with Cons.prems have "numOr0 c < 2 ^ 53" by simp
    from shiftCard_exact [OF assms(1) this, of now] True show ?thesis
      by (auto simp: numbersOfType_def List.map_filter_simps split: option.splits)
  next
    case False
    then show ?thesis by (simp add: numbersOfType_def List.map_filter_simps)
  qed
  show ?case
    using app [of "if card_type c = ty then shiftCard now n c else c"
                  "map (\<lambda>c. if card_type c = ty then shiftCard now n c else c) cards"]
          app [of c cards] IH one
    by simp
qed

lemma numbersOfType_append:
  "numbersOfType (xs @ ys) ty = numbersOfType xs ty @ numbersOfType ys ty"
  by (simp add: numbersOfType_def map_filter_def)

lemma inj_bump: "inj (\<lambda>k::int. if n \<le> k then k + 1 else k)"
  by (auto simp: inj_def split: if_splits)

text \<open>
  C3, as amended. Let the numbers of the cards of the type all be below \<open>2^53\<close>, where
  adding one is exact. When \<open>createCard\<close> is given an explicit number \<open>n \<ge> 1\<close> that a
  card of the same type holds, then afterwards exactly one card of the type holds \<open>n\<close>
  (the new one), every card of the type whose number was \<open>k \<ge> n\<close> holds \<open>k + 1\<close> and
  has \<open>updatedAt\<close> set to the clock value, and, provided the numbers of the type were
  pairwise distinct before the call, they are pairwise distinct after it.
\<close>

theorem createCard_collision_shifts:
  assumes "number cardData = Some n" and "1 \<le> n"
      and "\<exists>c \<in> set cards. card_type c = card_type cardData \<and> number c = Some n"
      and "\<forall>c \<in> set cards. card_type c = card_type cardData \<longrightarrow> numOr0 c < 2 ^ 53"
  shows "filter (\<lambda>c. card_type c = card_type cardData \<and> number c = Some n)
              (fst (createCard gid now cardData cards))
           = [snd (createCard gid now cardData cards)]
         \<and> (\<forall>j < length cards. \<forall>k.
               card_type (cards ! j) = card_type cardData \<and> number (cards ! j) = Some k \<and> n \<le> k
               \<longrightarrow> number (fst (createCard gid now cardData cards) ! j) = Some (k + 1)
                   \<and> updatedAt (fst (createCard gid now cardData cards) ! j) = Some now
                   \<and> card_type (fst (createCard gid now cardData cards) ! j) = card_type cardData)
         \<and> (distinct (numbersOfType cards (card_type cardData))
               \<longrightarrow> distinct (numbersOfType (fst (createCard gid now cardData cards))
                                (card_type cardData)))"
proof -
  let ?ty = "card_type cardData"
  let ?new = "spread (emptyObj\<lparr> card_id := Some (Str gid), createdAt := Some now,
                                 updatedAt := Some now \<rparr>) cardData"
  let ?shifted = "map (\<lambda>c. if card_type c = ?ty then shiftCard now n c else c) cards"
  have eq: "createCard gid now cardData cards = (?shifted @ [?new], ?new)"
    by (rule createCard_collision [OF assms(1,2,3)])
  have new_ty: "card_type ?new = ?ty" and new_n: "number ?new = Some n"
    using assms(1) by (simp_all add: spread_def orElse_def emptyObj_def split: option.splits)
  have exact: "\<And>c. c \<in> set cards \<Longrightarrow> card_type c = ?ty \<Longrightarrow>
                 shiftCard now n c
                   = (case number c of
                        None \<Rightarrow> c
                      | Some k \<Rightarrow> if n \<le> k
                                  then c\<lparr> number := Some (k + 1), updatedAt := Some now \<rparr>
                                  else c)"
    using assms(2,4) by (intro shiftCard_exact) auto
  have none_old: "filter (\<lambda>c. card_type c = ?ty \<and> number c = Some n) ?shifted = []"
    by (auto simp: filter_empty_conv exact split: option.splits if_splits)
  have one: "filter (\<lambda>c. card_type c = ?ty \<and> number c = Some n) (?shifted @ [?new]) = [?new]"
    using none_old new_ty new_n by simp
  have shift: "\<forall>j < length cards. \<forall>k.
               card_type (cards ! j) = ?ty \<and> number (cards ! j) = Some k \<and> n \<le> k
               \<longrightarrow> number ((?shifted @ [?new]) ! j) = Some (k + 1)
                   \<and> updatedAt ((?shifted @ [?new]) ! j) = Some now
                   \<and> card_type ((?shifted @ [?new]) ! j) = ?ty"
    by (auto simp: nth_append exact)
  have new_nums: "numbersOfType [?new] ?ty = [n]"
    using new_ty new_n by (simp add: numbersOfType_def List.map_filter_simps)
  have dist: "distinct (numbersOfType cards ?ty)
               \<longrightarrow> distinct (numbersOfType (?shifted @ [?new]) ?ty)"
  proof
    assume d: "distinct (numbersOfType cards ?ty)"
    have "distinct (map (\<lambda>k. if n \<le> k then k + 1 else k) (numbersOfType cards ?ty))"
      using d inj_on_subset [OF inj_bump [of n] subset_UNIV] by (simp add: distinct_map)
    moreover have "n \<notin> set (map (\<lambda>k. if n \<le> k then k + 1 else k) (numbersOfType cards ?ty))"
      by (auto split: if_splits)
    ultimately show "distinct (numbersOfType (?shifted @ [?new]) ?ty)"
      by (simp add: numbersOfType_append numbersOfType_shift [OF assms(2,4)] new_nums)
  qed
  from one shift dist show ?thesis unfolding eq fst_conv snd_conv by blast
qed

theorem createCard_collision_shifts_witness:
  "number caveData = Some 1
   \<and> card_type (twoLocals ! 0) = card_type caveData \<and> number (twoLocals ! 0) = Some 1
   \<and> map numOr0 twoLocals = [1, 2]
   \<and> distinct (numbersOfType twoLocals (card_type caveData))
   \<and> distinct (numbersOfType (fst (createCard ''C'' 3 caveData twoLocals)) (card_type caveData))"
proof -
  have h1: "number caveData = Some 1" by code_simp
  have len: "length twoLocals = 2" by code_simp
  then have mem: "twoLocals ! 0 \<in> set twoLocals" by simp
  have ty: "card_type (twoLocals ! 0) = card_type caveData" by code_simp
  have n: "number (twoLocals ! 0) = Some 1" by code_simp
  from mem ty n
  have h3: "\<exists>c \<in> set twoLocals. card_type c = card_type caveData \<and> number c = Some 1"
    by blast
  have nums: "map numOr0 twoLocals = [1, 2]" by code_simp
  have "\<forall>k \<in> set (map numOr0 twoLocals). k < 2 ^ 53" unfolding nums by simp
  then have h4: "\<forall>c \<in> set twoLocals. card_type c = card_type caveData \<longrightarrow> numOr0 c < 2 ^ 53"
    by simp
  have d: "distinct (numbersOfType twoLocals (card_type caveData))" by code_simp
  from createCard_collision_shifts [OF h1 _ h3 h4, of "''C''" 3] d
  have "distinct (numbersOfType (fst (createCard ''C'' 3 caveData twoLocals))
                    (card_type caveData))"
    by simp
  with h1 ty n nums d show ?thesis by simp
qed

text \<open>
  C3, as stated, fails where two cards of the type already share the number: both are
  shifted, and both hold 2 afterwards. It fails from \<open>2^53\<close> on as well: the card that
  holds \<open>2^53\<close> keeps it when one is added, so two cards hold the number given.
\<close>

theorem createCard_collision_keeps_duplicates:
  "map card_type dupStore = [Some ''local'', Some ''local'']
   \<and> map number dupStore = [Some 1, Some 1]
   \<and> map card_type (fst (createCard ''C'' 3 caveData dupStore))
       = [Some ''local'', Some ''local'', Some ''local'']
   \<and> map number (fst (createCard ''C'' 3 caveData dupStore)) = [Some 2, Some 2, Some 1]
   \<and> map card_type bigStore = [Some ''local'']
   \<and> map number bigStore = [Some 9007199254740992]
   \<and> number bigData = Some 9007199254740992
   \<and> map card_type (fst (createCard ''B'' 2 bigData bigStore)) = [Some ''local'', Some ''local'']
   \<and> map number (fst (createCard ''B'' 2 bigData bigStore))
       = [Some 9007199254740992, Some 9007199254740992]"
  by code_simp

text \<open>
  C4, as amended. In a store where the numbers of the cards of the type are safe
  integers (below \<open>2^53\<close> in absolute value, an absent number counting as 0),
  \<open>getNextNumber\<close> returns 1 when the store has no card of the type, and otherwise the
  maximum of the numbers of the cards of the type plus one; so the number it returns is
  held by no card of the type that is in the store.
\<close>

theorem getNextNumber_spec:
  assumes "\<forall>c \<in> set cards. card_type c = ty \<longrightarrow> isSafeInteger (numOr0 c)"
  shows "getNextNumber cards ty =
           (if getCardsByType cards ty = [] then 1
            else Max (set (map numOr0 (getCardsByType cards ty))) + 1)
         \<and> (\<forall>c \<in> set cards. card_type c = ty \<longrightarrow> number c \<noteq> Some (getNextNumber cards ty))"
proof
  show "getNextNumber cards ty =
     (if getCardsByType cards ty = [] then 1
      else Max (set (map numOr0 (getCardsByType cards ty))) + 1)"
    by (rule getNextNumber_safe [OF assms])
next
  show "\<forall>c \<in> set cards. card_type c = ty \<longrightarrow> number c \<noteq> Some (getNextNumber cards ty)"
  proof (intro ballI impI notI)
    fix c
    assume "c \<in> set cards" "card_type c = ty" "number c = Some (getNextNumber cards ty)"
    with getNextNumber_above [OF assms, of c] show False by (simp add: numOr0_def)
  qed
qed

theorem getNextNumber_spec_witness:
  "map numOr0 twoLocals = [1, 2]
   \<and> card_type (twoLocals ! 1) = Some ''local''
   \<and> number (twoLocals ! 1) = Some 2
   \<and> getNextNumber twoLocals (Some ''local'') = 3
   \<and> number (twoLocals ! 1) \<noteq> Some (getNextNumber twoLocals (Some ''local''))"
proof -
  have nums: "map numOr0 twoLocals = [1, 2]" by code_simp
  have "\<forall>k \<in> set (map numOr0 twoLocals). isSafeInteger k"
    unfolding nums by (simp add: isSafeInteger_def)
  then have safe: "\<forall>c \<in> set twoLocals. card_type c = Some ''local'' \<longrightarrow> isSafeInteger (numOr0 c)"
    by simp
  have len: "length twoLocals = 2" by code_simp
  then have mem: "twoLocals ! 1 \<in> set twoLocals" by simp
  have ty: "card_type (twoLocals ! 1) = Some ''local''" by code_simp
  have n: "number (twoLocals ! 1) = Some 2" by code_simp
  have byType: "map numOr0 (getCardsByType twoLocals (Some ''local'')) = [1, 2]" by code_simp
  then have ne: "getCardsByType twoLocals (Some ''local'') \<noteq> []" by auto
  from getNextNumber_spec [OF safe] ne byType
  have next3: "getNextNumber twoLocals (Some ''local'') = 3" by simp
  from getNextNumber_spec [OF safe] mem ty
  have "number (twoLocals ! 1) \<noteq> Some (getNextNumber twoLocals (Some ''local''))" by blast
  with nums ty n next3 show ?thesis by simp
qed

text \<open>
  C4, as stated, fails: the second location holds number 2, deleting it frees the
  number, and the next location created gets number 2 again. From \<open>2^53\<close> on the first
  half fails as well: the maximum plus one is the maximum, a number that a card holds.
\<close>

theorem getNextNumber_reuses_freed_number:
  "map number twoLocals = [Some 1, Some 2]
   \<and> map number (fst (deleteCard (Str ''B'') twoLocals)) = [Some 1]
   \<and> getNextNumber (fst (deleteCard (Str ''B'') twoLocals)) (Some ''local'') = 2
   \<and> map number (fst (createCard ''C'' 3 (formData ''local'' ''Cave'')
                        (fst (deleteCard (Str ''B'') twoLocals)))) = [Some 1, Some 2]
   \<and> map card_type bigStore = [Some ''local'']
   \<and> map number bigStore = [Some 9007199254740992]
   \<and> getNextNumber bigStore (Some ''local'') = 9007199254740992"
  by code_simp

text \<open>
  C2 fails on the code: \<open>updateCard\<close> looks for a conflicting card of the type named in
  \<open>cardData\<close>, not of the type of the stored card, so an update that carries a number
  and no type finds no conflict. Both locations hold number 1 afterwards.
\<close>

theorem updateCard_duplicates_number:
  "map card_type twoLocals = [Some ''local'', Some ''local'']
   \<and> map number twoLocals = [Some 1, Some 2]
   \<and> map card_type (fst (updateCard 3 (Str ''B'') (emptyObj\<lparr> number := Some 1 \<rparr>) twoLocals))
       = [Some ''local'', Some ''local'']
   \<and> map number (fst (updateCard 3 (Str ''B'') (emptyObj\<lparr> number := Some 1 \<rparr>) twoLocals))
       = [Some 1, Some 1]"
  by code_simp

text \<open>
  The same lookup misses the collision when the form changes the type of a card and
  leaves its number: the number given equals the stored one, so nothing is checked.
\<close>

lemma updateCard_type_change_duplicates_number:
  "map card_type mixedStore = [Some ''local'', Some ''evento'']
   \<and> map number mixedStore = [Some 1, Some 1]
   \<and> map card_type (fst (updateCard 3 (Str ''A'')
                          ((formData ''evento'' ''Abbey'')\<lparr> number := Some 1 \<rparr>) mixedStore))
       = [Some ''evento'', Some ''evento'']
   \<and> map number (fst (updateCard 3 (Str ''A'')
                       ((formData ''evento'' ''Abbey'')\<lparr> number := Some 1 \<rparr>) mixedStore))
       = [Some 1, Some 1]"
  by code_simp

text \<open>
  C5 fails on the code: the pass skips the valid numbers it has already visited in
  \<open>createdAt\<close> order, not the ones still to come. The older location, without a number
  in \<open>legacyCards\<close> and with the number -1 in \<open>invalidStore\<close>, gets number 1, which the
  newer one holds.
\<close>

theorem ensureAllCardsHaveNumbers_duplicates_number:
  "map number legacyCards = [None, Some 1]
   \<and> map card_type (ensureAllCardsHaveNumbers legacyCards) = [Some ''local'', Some ''local'']
   \<and> map number (ensureAllCardsHaveNumbers legacyCards) = [Some 1, Some 1]
   \<and> map number invalidStore = [Some (- 1), Some 1]
   \<and> map createdAt invalidStore = [Some 1, Some 2]
   \<and> map card_type (ensureAllCardsHaveNumbers invalidStore) = [Some ''local'', Some ''local'']
   \<and> map number (ensureAllCardsHaveNumbers invalidStore) = [Some 1, Some 1]"
  by code_simp

section \<open>Creation\<close>

text \<open>
  C9, as amended. \<open>createCard\<close> validates nothing and never fails: whatever the type and
  the name, it appends exactly one card, which carries the type and the name given, and
  returns it.
\<close>

theorem createCard_always_inserts:
  "length (fst (createCard gid now cardData cards)) = length cards + 1
   \<and> last (fst (createCard gid now cardData cards)) = snd (createCard gid now cardData cards)
   \<and> card_type (snd (createCard gid now cardData cards)) = card_type cardData
   \<and> name (snd (createCard gid now cardData cards)) = name cardData"
  by (auto simp: createCard_def Let_def spread_def orElse_def emptyObj_def
                 reorganizeNumbers_map
           split: option.splits prod.splits)

text \<open>
  C9, as stated, fails: a card of an unknown type with an empty name is inserted into
  the empty store.
\<close>

theorem createCard_accepts_unknown_type:
  "map card_type (fst (createCard ''G'' 5 (formData ''castle'' []) [])) = [Some ''castle'']
   \<and> map name (fst (createCard ''G'' 5 (formData ''castle'' []) [])) = [Some []]"
  by code_simp

text \<open>
  C10 fails on the code: \<open>cardData\<close> is spread after the stamped properties, so an id and
  timestamps present in it replace the generated id \<open>G\<close> and the clock value 5.
\<close>

theorem createCard_keeps_given_id:
  "card_id (snd (createCard ''G'' 5
      ((formData ''local'' ''Abbey'')
         \<lparr> card_id := Some (Str ''X''), createdAt := Some 1, updatedAt := Some 2 \<rparr>) [])) = Some (Str ''X'')
   \<and> createdAt (snd (createCard ''G'' 5
      ((formData ''local'' ''Abbey'')
         \<lparr> card_id := Some (Str ''X''), createdAt := Some 1, updatedAt := Some 2 \<rparr>) [])) = Some 1
   \<and> updatedAt (snd (createCard ''G'' 5
      ((formData ''local'' ''Abbey'')
         \<lparr> card_id := Some (Str ''X''), createdAt := Some 1, updatedAt := Some 2 \<rparr>) [])) = Some 2"
  by code_simp

section \<open>Synchronizer\<close>

lemma findIndex_Some: "findIndex P xs = Some k \<Longrightarrow> k < length xs \<and> P (xs ! k)"
  by (induction xs arbitrary: k) (auto split: if_splits)

lemma find_findIndex: "find P xs = map_option (nth xs) (findIndex P xs)"
  by (induction xs) (auto simp: option.map_comp comp_def)

lemma findIndex_map: "findIndex (\<lambda>c. Q (h c)) xs = findIndex Q (map h xs)"
  by (induction xs) auto

lemma findIndex_sameIds:
  assumes "sameIds cs cs'"
  shows "findIndex (\<lambda>c. card_id c = Some i) cs' = findIndex (\<lambda>c. card_id c = Some i) cs"
  using assms findIndex_map [of "\<lambda>x. x = Some i" card_id cs]
        findIndex_map [of "\<lambda>x. x = Some i" card_id cs']
  by (simp add: sameIds_def)

lemma sameIds_refl: "sameIds cs cs"
  by (simp add: sameIds_def)

lemma sameIds_trans: "sameIds a b \<Longrightarrow> sameIds b c \<Longrightarrow> sameIds a c"
  by (simp add: sameIds_def)

lemma sameIds_length: "sameIds cs cs' \<Longrightarrow> length cs' = length cs"
  by (auto simp: sameIds_def dest: map_eq_imp_length_eq)

lemma sameIds_type: "sameIds cs cs' \<Longrightarrow> k < length cs \<Longrightarrow> card_type (cs' ! k) = card_type (cs ! k)"
  by (metis length_map nth_map sameIds_def)

lemma updateCard_rel:
  assumes "findIndex (\<lambda>c. card_id c = Some i) cs = Some k"
  shows "fst (updateCard now i (emptyObj\<lparr> rel := [f \<mapsto> xs] \<rparr>) cs) = cs[k := setRel now f xs (cs ! k)]"
  using assms
  by (cases "cs ! k")
     (simp add: updateCard_def falsyNum_def emptyObj_def spread_def orElse_def setRel_def
                Let_def
           split: option.splits)

lemma map_update_same: "(map h cs)[k := h (cs ! k)] = map h cs"
  by (cases "k < length cs") (simp_all add: list_update_same_conv list_update_beyond)

lemma setRel_sameIds:
  "sameIds cs (cs[k := setRel now f xs (cs ! k)])"
  by (simp add: sameIds_def setRel_def map_update map_update_same)

text \<open>\<open>addMutualConnection\<close>: ids and types stay, an id that is in a property stays.\<close>

lemma add_sameIds: "sameIds cs (addMutualConnection now t' sid tf sty cs)"
  by (auto simp: addMutualConnection_def getCard_def find_findIndex Let_def updateCard_rel
                 setRel_sameIds sameIds_refl
           split: option.splits)

lemma add_keeps:
  assumes "sid \<in> set (orEmpty (rel (cs ! k) F))"
  shows "sid \<in> set (orEmpty (rel (addMutualConnection now t' sid tf sty cs ! k) F))"
proof (cases "findIndex (\<lambda>c. card_id c = Some t') cs")
  case None
  then show ?thesis using assms
    by (simp add: addMutualConnection_def getCard_def find_findIndex)
next
  case (Some j)
  then have j: "j < length cs" by (simp add: findIndex_Some)
  show ?thesis
    using assms Some j
    by (cases "k = j")
       (auto simp: addMutualConnection_def getCard_def find_findIndex Let_def updateCard_rel
                   setRel_def orEmpty_def)
qed

lemma add_establishes:
  assumes "findIndex (\<lambda>c. card_id c = Some t) cs = Some k"
  shows "sid \<in> set (orEmpty (rel (addMutualConnection now t sid tf sty cs ! k)
                                 (fieldToUpdate (card_type (cs ! k)) sty tf)))"
proof -
  from assms have k: "k < length cs" by (simp add: findIndex_Some)
  show ?thesis
    using assms k
    by (auto simp: addMutualConnection_def getCard_def find_findIndex Let_def updateCard_rel
                   setRel_def orEmpty_def)
qed

text \<open>\<open>removeMutualConnection\<close> touches the first card with the target id only.\<close>

lemma removeFromField_props:
  assumes "findIndex (\<lambda>c. card_id c = Some t') cs = Some j"
  shows "sameIds cs (removeFromField now t' sid T f cs)
         \<and> (\<forall>k. k \<noteq> j \<longrightarrow> removeFromField now t' sid T f cs ! k = cs ! k)"
  using assms
  by (auto simp: removeFromField_def updateCard_rel setRel_sameIds sameIds_refl
           split: option.splits)

lemma fold_removeFromField_props:
  assumes "findIndex (\<lambda>c. card_id c = Some t') cs = Some j"
  shows "sameIds cs (fold (removeFromField now t' sid T) fs cs)
         \<and> (\<forall>k. k \<noteq> j \<longrightarrow> fold (removeFromField now t' sid T) fs cs ! k = cs ! k)"
  using assms
proof (induction fs arbitrary: cs)
  case Nil
  then show ?case by (simp add: sameIds_refl)
next
  case (Cons f fs)
  let ?cs' = "removeFromField now t' sid T f cs"
  from removeFromField_props [OF Cons.prems]
  have s: "sameIds cs ?cs'" and n: "\<forall>k. k \<noteq> j \<longrightarrow> ?cs' ! k = cs ! k" by auto
  from s Cons.prems have "findIndex (\<lambda>c. card_id c = Some t') ?cs' = Some j"
    by (simp add: findIndex_sameIds)
  from Cons.IH [OF this] s n show ?case
    by (auto intro: sameIds_trans)
qed

lemma remove_sameIds: "sameIds cs (removeMutualConnection now t' sid cs)"
  by (auto simp: removeMutualConnection_def getCard_def find_findIndex sameIds_refl
                 fold_removeFromField_props
           split: option.splits)

lemma remove_other:
  assumes "findIndex (\<lambda>c. card_id c = Some t) cs = Some k" and "t' \<noteq> t"
  shows "removeMutualConnection now t' sid cs ! k = cs ! k"
proof (cases "findIndex (\<lambda>c. card_id c = Some t') cs")
  case None
  then show ?thesis by (simp add: removeMutualConnection_def getCard_def find_findIndex)
next
  case (Some j)
  from findIndex_Some [OF Some] findIndex_Some [OF assms(1)] assms(2)
  have "k \<noteq> j" by auto
  with fold_removeFromField_props [OF Some] Some show ?thesis
    by (simp add: removeMutualConnection_def getCard_def find_findIndex)
qed


text \<open>The two loops of one row of the mapping table, and the loop over the rows.\<close>

lemma fold_add_sameIds:
  "sameIds cs (fold (\<lambda>t'. addMutualConnection now t' sid tf sty) ts cs)"
proof (induction ts arbitrary: cs)
  case Nil
  then show ?case by (simp add: sameIds_refl)
next
  case (Cons a ts)
  from add_sameIds [of cs now a sid tf sty]
       Cons.IH [of "addMutualConnection now a sid tf sty cs"]
  show ?case by (auto intro: sameIds_trans)
qed

lemma fold_add_keeps:
  assumes "sid \<in> set (orEmpty (rel (cs ! k) F))"
  shows "sid \<in> set (orEmpty (rel (fold (\<lambda>t'. addMutualConnection now t' sid tf sty) ts cs ! k) F))"
  using assms
  by (induction ts arbitrary: cs) (auto intro: add_keeps)

lemma fold_add_establishes:
  assumes "findIndex (\<lambda>c. card_id c = Some t) cs = Some k" and "t \<in> set ts"
  shows "sid \<in> set (orEmpty (rel (fold (\<lambda>t'. addMutualConnection now t' sid tf sty) ts cs ! k)
                                 (fieldToUpdate (card_type (cs ! k)) sty tf)))"
  using assms
proof (induction ts arbitrary: cs)
  case Nil
  then show ?case by simp
next
  case (Cons a ts)
  let ?cs' = "addMutualConnection now a sid tf sty cs"
  have s: "sameIds cs ?cs'" by (rule add_sameIds)
  from Cons.prems(1) have k: "k < length cs" by (simp add: findIndex_Some)
  from s Cons.prems(1) have idx: "findIndex (\<lambda>c. card_id c = Some t) ?cs' = Some k"
    by (simp add: findIndex_sameIds)
  from s k have ty: "card_type (?cs' ! k) = card_type (cs ! k)" by (rule sameIds_type)
  show ?case
  proof (cases "a = t")
    case True
    from add_establishes [OF Cons.prems(1), of sid now tf sty] True
    have "sid \<in> set (orEmpty (rel (?cs' ! k) (fieldToUpdate (card_type (cs ! k)) sty tf)))"
      by simp
    from fold_add_keeps [OF this] show ?thesis by simp
  next
    case False
    with Cons.prems(2) have "t \<in> set ts" by simp
    from Cons.IH [OF idx this] ty show ?thesis by simp
  qed
qed

lemma fold_remove_sameIds:
  "sameIds cs (fold (\<lambda>t'. removeMutualConnection now t' sid) ts cs)"
proof (induction ts arbitrary: cs)
  case Nil
  then show ?case by (simp add: sameIds_refl)
next
  case (Cons a ts)
  from remove_sameIds [of cs now a sid]
       Cons.IH [of "removeMutualConnection now a sid cs"]
  show ?case by (auto intro: sameIds_trans)
qed

lemma fold_remove_other:
  assumes "findIndex (\<lambda>c. card_id c = Some t) cs = Some k" and "t \<notin> set ts"
  shows "fold (\<lambda>t'. removeMutualConnection now t' sid) ts cs ! k = cs ! k"
  using assms
proof (induction ts arbitrary: cs)
  case Nil
  then show ?case by simp
next
  case (Cons a ts)
  let ?cs' = "removeMutualConnection now a sid cs"
  from Cons.prems(2) have a: "a \<noteq> t" and ts: "t \<notin> set ts" by auto
  have same: "?cs' ! k = cs ! k" by (rule remove_other [OF Cons.prems(1) a])
  have "sameIds cs ?cs'" by (rule remove_sameIds)
  with Cons.prems(1) have "findIndex (\<lambda>c. card_id c = Some t) ?cs' = Some k"
    by (simp add: findIndex_sameIds)
  from Cons.IH [OF this ts] same show ?case by simp
qed

lemma syncField_sameIds:
  "sameIds cs (syncField now sid sty cardData prev row cs)"
  by (cases row)
     (auto simp: syncField_def Let_def intro: sameIds_trans fold_add_sameIds fold_remove_sameIds)

lemma syncField_keeps:
  assumes idx: "findIndex (\<lambda>c. card_id c = Some t) cs = Some k"
      and nr: "t \<in> set (previousConnsOf prev fn) \<longrightarrow> t \<in> set (orEmpty (rel cardData fn))"
      and P: "sid \<in> set (orEmpty (rel (cs ! k) F))"
  shows "sid \<in> set (orEmpty (rel (syncField now sid sty cardData prev (fn, tf) cs ! k) F))"
proof -
  let ?added = "filter (\<lambda>i. i \<notin> set (previousConnsOf prev fn)) (orEmpty (rel cardData fn))"
  let ?removed = "filter (\<lambda>i. i \<notin> set (orEmpty (rel cardData fn))) (previousConnsOf prev fn)"
  let ?cs1 = "fold (\<lambda>t'. addMutualConnection now t' sid tf sty) ?added cs"
  have P1: "sid \<in> set (orEmpty (rel (?cs1 ! k) F))" by (rule fold_add_keeps [OF P])
  have "sameIds cs ?cs1" by (rule fold_add_sameIds)
  with idx have idx1: "findIndex (\<lambda>c. card_id c = Some t) ?cs1 = Some k"
    by (simp add: findIndex_sameIds)
  from nr have "t \<notin> set ?removed" by auto
  from fold_remove_other [OF idx1 this] P1 show ?thesis
    by (simp add: syncField_def Let_def)
qed

lemma syncField_establishes:
  assumes idx: "findIndex (\<lambda>c. card_id c = Some t) cs = Some k"
      and cur: "t \<in> set (orEmpty (rel cardData fn))"
      and new: "t \<notin> set (previousConnsOf prev fn)"
  shows "sid \<in> set (orEmpty (rel (syncField now sid sty cardData prev (fn, tf) cs ! k)
                                 (fieldToUpdate (card_type (cs ! k)) sty tf)))"
proof -
  let ?added = "filter (\<lambda>i. i \<notin> set (previousConnsOf prev fn)) (orEmpty (rel cardData fn))"
  let ?removed = "filter (\<lambda>i. i \<notin> set (orEmpty (rel cardData fn))) (previousConnsOf prev fn)"
  let ?cs1 = "fold (\<lambda>t'. addMutualConnection now t' sid tf sty) ?added cs"
  from cur new have "t \<in> set ?added" by simp
  from fold_add_establishes [OF idx this]
  have P1: "sid \<in> set (orEmpty (rel (?cs1 ! k) (fieldToUpdate (card_type (cs ! k)) sty tf)))" .
  have "sameIds cs ?cs1" by (rule fold_add_sameIds)
  with idx have idx1: "findIndex (\<lambda>c. card_id c = Some t) ?cs1 = Some k"
    by (simp add: findIndex_sameIds)
  from cur have "t \<notin> set ?removed" by simp
  from fold_remove_other [OF idx1 this] P1 show ?thesis
    by (simp add: syncField_def Let_def)
qed

lemma rows_sameIds:
  "sameIds cs (fold (syncField now sid sty cardData prev) rows cs)"
proof (induction rows arbitrary: cs)
  case Nil
  then show ?case by (simp add: sameIds_refl)
next
  case (Cons r rows)
  from syncField_sameIds [of cs now sid sty cardData prev r]
       Cons.IH [of "syncField now sid sty cardData prev r cs"]
  show ?case by (auto intro: sameIds_trans)
qed

lemma rows_keeps:
  assumes "findIndex (\<lambda>c. card_id c = Some t) cs = Some k"
      and "\<forall>(fn, tf) \<in> set rows.
             t \<in> set (previousConnsOf prev fn) \<longrightarrow> t \<in> set (orEmpty (rel cardData fn))"
      and "sid \<in> set (orEmpty (rel (cs ! k) F))"
  shows "sid \<in> set (orEmpty (rel (fold (syncField now sid sty cardData prev) rows cs ! k) F))"
  using assms
proof (induction rows arbitrary: cs)
  case Nil
  then show ?case by simp
next
  case (Cons r rows)
  obtain fn tf where r: "r = (fn, tf)" by (cases r)
  let ?cs' = "syncField now sid sty cardData prev r cs"
  from Cons.prems(2) r
  have nr: "t \<in> set (previousConnsOf prev fn) \<longrightarrow> t \<in> set (orEmpty (rel cardData fn))"
    by auto
  have P': "sid \<in> set (orEmpty (rel (?cs' ! k) F))"
    unfolding r by (rule syncField_keeps [OF Cons.prems(1) nr Cons.prems(3)])
  have "sameIds cs ?cs'" by (rule syncField_sameIds)
  with Cons.prems(1) have idx': "findIndex (\<lambda>c. card_id c = Some t) ?cs' = Some k"
    by (simp add: findIndex_sameIds)
  from Cons.prems(2) have rest: "\<forall>(fn, tf) \<in> set rows.
             t \<in> set (previousConnsOf prev fn) \<longrightarrow> t \<in> set (orEmpty (rel cardData fn))"
    by simp
  from Cons.IH [OF idx' rest P'] show ?case by simp
qed

lemma rows_establishes:
  assumes "findIndex (\<lambda>c. card_id c = Some t) cs = Some k"
      and "\<forall>(fn, tf) \<in> set rows.
             t \<in> set (previousConnsOf prev fn) \<longrightarrow> t \<in> set (orEmpty (rel cardData fn))"
      and "(fieldName, targetField) \<in> set rows"
      and "t \<in> set (orEmpty (rel cardData fieldName))"
      and "t \<notin> set (previousConnsOf prev fieldName)"
  shows "sid \<in> set (orEmpty (rel (fold (syncField now sid sty cardData prev) rows cs ! k)
                                 (fieldToUpdate (card_type (cs ! k)) sty targetField)))"
  using assms
proof (induction rows arbitrary: cs)
  case Nil
  then show ?case by simp
next
  case (Cons r rows)
  let ?cs' = "syncField now sid sty cardData prev r cs"
  let ?F = "fieldToUpdate (card_type (cs ! k)) sty targetField"
  from Cons.prems(1) have k: "k < length cs" by (simp add: findIndex_Some)
  have s: "sameIds cs ?cs'" by (rule syncField_sameIds)
  with Cons.prems(1) have idx': "findIndex (\<lambda>c. card_id c = Some t) ?cs' = Some k"
    by (simp add: findIndex_sameIds)
  from s k have ty: "card_type (?cs' ! k) = card_type (cs ! k)" by (rule sameIds_type)
  from Cons.prems(2) have rest: "\<forall>(fn, tf) \<in> set rows.
             t \<in> set (previousConnsOf prev fn) \<longrightarrow> t \<in> set (orEmpty (rel cardData fn))"
    by simp
  show ?case
  proof (cases "r = (fieldName, targetField)")
    case True
    have "sid \<in> set (orEmpty (rel (?cs' ! k) ?F))"
      unfolding True
      by (rule syncField_establishes [OF Cons.prems(1) Cons.prems(4) Cons.prems(5)])
    from rows_keeps [OF idx' rest this] show ?thesis by simp
  next
    case False
    with Cons.prems(3) have "(fieldName, targetField) \<in> set rows" by simp
    from Cons.IH [OF idx' rest this Cons.prems(4) Cons.prems(5)] ty show ?thesis by simp
  qed
qed


text \<open>
  C1, as amended. Let \<open>saved\<close> be the saved card, with id \<open>sid\<close>, and let
  \<open>(fieldName, targetField)\<close> be a row of the mapping table for its type. For every id
  \<open>t\<close> in the new value of \<open>fieldName\<close> that resolves to a card \<open>T\<close> of the store,
  provided that \<open>t\<close> is new in that property (it is not in the previous value) or the
  reciprocal property of \<open>T\<close> already contains \<open>sid\<close>, and that \<open>t\<close> is not removed
  from a mapped property in the same save: after \<open>updateMutualConnections\<close> the id \<open>t\<close>
  still resolves to a card of the type of \<open>T\<close>, and the property of that card picked
  from the type of \<open>T\<close> and the type of \<open>saved\<close> contains \<open>sid\<close>.
\<close>

theorem updateMutualConnections_adds_reciprocal:
  assumes sid: "card_id saved = Some sid"
      and row: "(fieldName, targetField) \<in> set (connectionMappings (card_type saved))"
      and cur: "t \<in> set (orEmpty (rel cardData fieldName))"
      and T: "getCard cards t = Some T"
      and new: "t \<notin> set (previousConnsOf previousConnections fieldName)
                \<or> sid \<in> set (orEmpty (rel T (fieldToUpdate (card_type T) (card_type saved)
                                                  targetField)))"
      and kept: "\<forall>(fn, tf) \<in> set (connectionMappings (card_type saved)).
                   t \<in> set (previousConnsOf previousConnections fn)
                   \<longrightarrow> t \<in> set (orEmpty (rel cardData fn))"
  shows "\<exists>T'. getCard (updateMutualConnections now saved cardData previousConnections cards) t
                 = Some T'
              \<and> card_type T' = card_type T
              \<and> sid \<in> set (orEmpty (rel T' (fieldToUpdate (card_type T) (card_type saved)
                                                targetField)))"
proof -
  let ?rows = "connectionMappings (card_type saved)"
  let ?F = "fieldToUpdate (card_type T) (card_type saved) targetField"
  let ?cs' = "fold (syncField now sid (card_type saved) cardData previousConnections) ?rows cards"
  from T obtain k where idx: "findIndex (\<lambda>c. card_id c = Some t) cards = Some k"
    and Tk: "T = cards ! k"
    by (auto simp: getCard_def find_findIndex)
  from idx have k: "k < length cards" by (simp add: findIndex_Some)
  have s: "sameIds cards ?cs'" by (rule rows_sameIds)
  with idx have idx': "findIndex (\<lambda>c. card_id c = Some t) ?cs' = Some k"
    by (simp add: findIndex_sameIds)
  from s k have ty: "card_type (?cs' ! k) = card_type T" unfolding Tk by (rule sameIds_type)
  have P: "sid \<in> set (orEmpty (rel (?cs' ! k) ?F))"
  proof (cases "t \<in> set (previousConnsOf previousConnections fieldName)")
    case True
    with new have "sid \<in> set (orEmpty (rel (cards ! k) ?F))" by (simp add: Tk)
    from rows_keeps [OF idx kept this] show ?thesis .
  next
    case False
    from rows_establishes [OF idx kept row cur False] show ?thesis by (simp add: Tk)
  qed
  have "updateMutualConnections now saved cardData previousConnections cards = ?cs'"
    using sid by (simp add: updateMutualConnections_def)
  with idx' ty P show ?thesis
    by (simp add: getCard_def find_findIndex)
qed

text \<open>
  An instance: the event is created with the location \<open>L\<close> in \<open>relatedLocations\<close> and
  no previous connections; afterwards the location's \<open>relatedEvents\<close> contains \<open>E\<close>.
\<close>

theorem updateMutualConnections_adds_reciprocal_witness:
  "card_id (snd (createCard ''E'' 2 newEventData lakeStore)) = Some (Str ''E'')
   \<and> card_type (snd (createCard ''E'' 2 newEventData lakeStore)) = Some ''evento''
   \<and> Str ''L'' \<in> set (orEmpty (rel newEventData RelatedLocations))
   \<and> (\<exists>T'. getCard (updateMutualConnections 2 (snd (createCard ''E'' 2 newEventData lakeStore))
                      newEventData None (fst (createCard ''E'' 2 newEventData lakeStore))) (Str ''L'')
               = Some T'
            \<and> Str ''E'' \<in> set (orEmpty (rel T' RelatedEvents)))"
proof -
  let ?cards = "fst (createCard ''E'' 2 newEventData lakeStore)"
  let ?saved = "snd (createCard ''E'' 2 newEventData lakeStore)"
  have sid: "card_id ?saved = Some (Str ''E'')" by code_simp
  have sty: "card_type ?saved = Some ''evento''" by code_simp
  have row: "(RelatedLocations, RelatedEvents) \<in> set (connectionMappings (card_type ?saved))"
    unfolding sty by (simp add: connectionMappings_def)
  have cur: "Str ''L'' \<in> set (orEmpty (rel newEventData RelatedLocations))"
    by (simp add: newEventData_def orEmpty_def)
  have idx: "findIndex (\<lambda>c. card_id c = Some (Str ''L'')) ?cards = Some 0" by code_simp
  then have T: "getCard ?cards (Str ''L'') = Some (?cards ! 0)"
    by (simp add: getCard_def find_findIndex)
  have tty: "card_type (?cards ! 0) = Some ''local''" by code_simp
  have F: "fieldToUpdate (card_type (?cards ! 0)) (card_type ?saved) RelatedEvents = RelatedEvents"
    unfolding tty sty by (simp add: fieldToUpdate_def)
  have new: "Str ''L'' \<notin> set (previousConnsOf None RelatedLocations)
             \<or> Str ''E'' \<in> set (orEmpty (rel (?cards ! 0)
                   (fieldToUpdate (card_type (?cards ! 0)) (card_type ?saved) RelatedEvents)))"
    by (simp add: previousConnsOf_def)
  have kept: "\<forall>(fn, tf) \<in> set (connectionMappings (card_type ?saved)).
                Str ''L'' \<in> set (previousConnsOf None fn)
                \<longrightarrow> Str ''L'' \<in> set (orEmpty (rel newEventData fn))"
    by (simp add: previousConnsOf_def)
  from updateMutualConnections_adds_reciprocal [OF sid row cur T new kept, of 2]
  have "\<exists>T'. getCard (updateMutualConnections 2 ?saved newEventData None ?cards) (Str ''L'')
               = Some T'
            \<and> Str ''E'' \<in> set (orEmpty (rel T' RelatedEvents))"
    unfolding F by blast
  with sid sty cur show ?thesis by blast
qed

text \<open>
  C1, as stated, fails for an id that the property held before the save as well: the
  synchronizer handles the difference of the two values only. In \<open>unlinkedStore\<close> the
  event refers to the location and the location does not refer to the event; saving the
  event again, unchanged, leaves the location's \<open>relatedEvents\<close> empty.
\<close>

theorem updateMutualConnections_skips_unchanged:
  "map card_id unlinkedStore = [Some (Str ''L''), Some (Str ''E'')]
   \<and> map (\<lambda>c. rel c RelatedLocations) unlinkedStore = [None, Some [Str ''L'']]
   \<and> map card_id resavedStore = [Some (Str ''L''), Some (Str ''E'')]
   \<and> map card_type resavedStore = [Some ''local'', Some ''evento'']
   \<and> map (\<lambda>c. rel c RelatedLocations) resavedStore = [None, Some [Str ''L'']]
   \<and> map (\<lambda>c. rel c RelatedEvents) resavedStore = [Some [], None]"
  by code_simp

text \<open>
  The last proviso is needed: a removal strips the id of the saved card from every
  property of the target, also from the one it was added to for an earlier row. Here the
  first location gets the second in \<open>adjacentLocations\<close> and loses it from
  \<open>presentCharacters\<close> in one save.
\<close>

lemma updateMutualConnections_removal_strips:
  "map card_id twoLocals = [Some (Str ''A''), Some (Str ''B'')]
   \<and> map card_type twoLocals = [Some ''local'', Some ''local'']
   \<and> map (\<lambda>c. rel c AdjacentLocations)
         (updateMutualConnections 3 (twoLocals ! 0)
            (emptyObj\<lparr> rel := [AdjacentLocations \<mapsto> [Str ''B''], PresentCharacters \<mapsto> []] \<rparr>)
            (Some [PresentCharacters \<mapsto> [Str ''B'']]) twoLocals)
       = [None, Some []]"
  by code_simp

section \<open>Deletion\<close>

text \<open>
  C6 fails on the code. The location \<open>L\<close> is in the event's \<open>relatedLocations\<close>; saving
  the location with no connection empties its \<open>relatedEvents\<close> and tells the event
  nothing. Deleting the location then finds no reference to follow, and \<open>deleteCard\<close>
  strips three other properties: the event still refers to the deleted location.
\<close>

theorem confirmDeleteCard_leaves_reference:
  "map card_id linkedStore = [Some (Str ''L''), Some (Str ''E'')]
   \<and> map (\<lambda>c. rel c RelatedEvents) linkedStore = [Some [Str ''E''], None]
   \<and> map (\<lambda>c. rel c RelatedLocations) linkedStore = [None, Some [Str ''L'']]
   \<and> map (\<lambda>c. rel c RelatedEvents) unlinkedStore = [Some [], None]
   \<and> map (\<lambda>c. rel c RelatedLocations) unlinkedStore = [None, Some [Str ''L'']]
   \<and> map card_id (confirmDeleteCard 4 (Str ''L'') unlinkedStore) = [Some (Str ''E'')]
   \<and> map (\<lambda>c. rel c RelatedLocations) (confirmDeleteCard 4 (Str ''L'') unlinkedStore)
       = [Some [Str ''L'']]"
  by code_simp

section \<open>Import\<close>

text \<open>The legacy pass changes numbers only.\<close>

lemma ensureStep_keeps:
  assumes "\<And>c x. h (c\<lparr> number := x \<rparr>) = h c"
  shows "map h (fst (ensureStep i st)) = map h (fst st)"
proof (cases st)
  case (Pair cs n)
  have "h (if falsyNum (number (cs ! i)) \<or> numOr0 (cs ! i) < 1
           then (cs ! i)\<lparr> number := Some n \<rparr> else cs ! i) = h (cs ! i)"
    using assms by simp
  then show ?thesis
    using Pair map_update_same [of h cs i]
    by (simp add: ensureStep_def Let_def map_update)
qed

lemma fold_ensureStep_keeps:
  assumes "\<And>c x. h (c\<lparr> number := x \<rparr>) = h c"
  shows "map h (fst (fold ensureStep js st)) = map h (fst st)"
proof (induction js arbitrary: st)
  case Nil
  then show ?case by simp
next
  case (Cons i js)
  from Cons.IH [of "ensureStep i st"] ensureStep_keeps [of h i st, OF assms]
  show ?case by simp
qed

lemma ensureType_keeps:
  assumes "\<And>c x. h (c\<lparr> number := x \<rparr>) = h c"
  shows "map h (ensureType ty cs) = map h cs"
  using fold_ensureStep_keeps [of h _ "(cs, 1)", OF assms]
  by (simp add: ensureType_def Let_def)

lemma ensureAll_keeps:
  assumes "\<And>c x. h (c\<lparr> number := x \<rparr>) = h c"
  shows "map h (ensureAllCardsHaveNumbers cs) = map h cs"
  by (simp add: ensureAllCardsHaveNumbers_def ensureType_keeps [of h, OF assms])

text \<open>The own properties of \<open>idMapping\<close> after the first pass.\<close>

lemma fold_assign_step:
  "fold (\<lambda>(c, newId) m. assignKey m (keyOf (card_id c)) newId) ((c0, g0) # ps) m0
     = fold (\<lambda>(c, newId) m. assignKey m (keyOf (card_id c)) newId) ps
         (assignKey m0 (keyOf (card_id c0)) g0)"
  by simp

lemma fold_assign_other:
  assumes "k \<notin> set (map (\<lambda>(c, g). keyOf (card_id c)) ps) \<or> k = ''__proto__''"
  shows "fold (\<lambda>(c, newId) m. assignKey m (keyOf (card_id c)) newId) ps m0 k = m0 k"
  using assms
proof (induction ps arbitrary: m0)
  case Nil
  then show ?case by simp
next
  case (Cons p ps)
  obtain c0 g0 where p: "p = (c0, g0)" by (cases p)
  from Cons.prems p
  have here: "assignKey m0 (keyOf (card_id c0)) g0 k = m0 k"
    by (auto simp: assignKey_def)
  from Cons.prems
  have rest: "k \<notin> set (map (\<lambda>(c, g). keyOf (card_id c)) ps) \<or> k = ''__proto__''" by auto
  from Cons.IH [OF rest, of "assignKey m0 (keyOf (card_id c0)) g0"] here
  show ?case unfolding p fold_assign_step by simp
qed

lemma fold_assign_hit:
  assumes "k \<in> set (map (\<lambda>(c, g). keyOf (card_id c)) ps)" and "k \<noteq> ''__proto__''"
  shows "\<exists>g \<in> snd ` set ps.
           fold (\<lambda>(c, newId) m. assignKey m (keyOf (card_id c)) newId) ps m0 k = Some g"
  using assms(1)
proof (induction ps arbitrary: m0)
  case Nil
  then show ?case by simp
next
  case (Cons p ps)
  obtain c0 g0 where p: "p = (c0, g0)" by (cases p)
  show ?case
  proof (cases "k \<in> set (map (\<lambda>(c, g). keyOf (card_id c)) ps)")
    case True
    from Cons.IH [OF True, of "assignKey m0 (keyOf (card_id c0)) g0"]
    show ?thesis unfolding p fold_assign_step by auto
  next
    case False
    with Cons.prems p have k: "k = keyOf (card_id c0)" by auto
    from False
    have "fold (\<lambda>(c, newId) m. assignKey m (keyOf (card_id c)) newId) ps
            (assignKey m0 (keyOf (card_id c0)) g0) k
          = assignKey m0 (keyOf (card_id c0)) g0 k"
      by (intro fold_assign_other) simp
    also have "\<dots> = Some g0" using k assms(2) by (simp add: assignKey_def)
    finally show ?thesis unfolding p fold_assign_step by auto
  qed
qed

lemma fold_assign_range:
  assumes "fold (\<lambda>(c, newId) m. assignKey m (keyOf (card_id c)) newId) ps m0 k = Some g"
  shows "g \<in> snd ` set ps \<or> m0 k = Some g"
  using assms
proof (induction ps arbitrary: m0)
  case Nil
  then show ?case by simp
next
  case (Cons p ps)
  obtain c0 g0 where p: "p = (c0, g0)" by (cases p)
  from Cons.prems
  have "fold (\<lambda>(c, newId) m. assignKey m (keyOf (card_id c)) newId) ps
          (assignKey m0 (keyOf (card_id c0)) g0) k = Some g"
    unfolding p fold_assign_step .
  from Cons.IH [OF this] p show ?case by (auto simp: assignKey_def split: if_splits)
qed

lemma keys_zip:
  assumes "length gids = length incoming"
  shows "map (\<lambda>(c, g). keyOf (card_id c)) (zip incoming gids) = map (\<lambda>c. keyOf (card_id c)) incoming"
proof -
  have "map (\<lambda>(c, g). keyOf (card_id c)) (zip incoming gids)
          = map (\<lambda>c. keyOf (card_id c)) (map fst (zip incoming gids))"
    by (simp add: case_prod_unfold comp_def)
  with assms show ?thesis by simp
qed

lemma buildIdMapping_resolved:
  assumes "length gids = length incoming"
      and "k \<in> set (map (\<lambda>c. keyOf (card_id c)) incoming)" and "k \<noteq> ''__proto__''"
  shows "\<exists>g \<in> set gids. buildIdMapping incoming gids k = Some g"
proof -
  from assms(1,2) have "k \<in> set (map (\<lambda>(c, g). keyOf (card_id c)) (zip incoming gids))"
    by (simp add: keys_zip)
  from fold_assign_hit [OF this assms(3), of Map.empty]
  show ?thesis by (auto simp: buildIdMapping_def dest: set_zip_rightD)
qed

lemma buildIdMapping_unresolved:
  assumes "length gids = length incoming"
      and "k \<notin> set (map (\<lambda>c. keyOf (card_id c)) incoming) \<or> k = ''__proto__''"
  shows "buildIdMapping incoming gids k = None"
proof -
  from assms
  have "k \<notin> set (map (\<lambda>(c, g). keyOf (card_id c)) (zip incoming gids)) \<or> k = ''__proto__''"
    by (simp add: keys_zip)
  from fold_assign_other [OF this] show ?thesis by (simp add: buildIdMapping_def)
qed

lemma buildIdMapping_range:
  assumes "buildIdMapping incoming gids k = Some g"
  shows "g \<in> set gids"
proof -
  from fold_assign_range [OF assms [unfolded buildIdMapping_def]]
  have "g \<in> snd ` set (zip incoming gids)" by simp
  then show ?thesis by (auto dest: set_zip_rightD)
qed

text \<open>What a lookup under the id of a card of the file finds.\<close>

lemma lookupKey_file_id:
  assumes "length gids = length incoming" and "[] \<notin> set gids"
      and "k \<in> set (map (\<lambda>c. keyOf (card_id c)) incoming)"
  shows "\<exists>r. lookupKey (buildIdMapping incoming gids) k = Some r \<and> truthy r
            \<and> (k \<noteq> ''__proto__'' \<longrightarrow> (\<exists>g \<in> set gids. r = Str g))"
proof (cases "k = ''__proto__''")
  case True
  with buildIdMapping_unresolved [OF assms(1), of k]
  show ?thesis by (simp add: lookupKey_def objectPrototypeKeys_def truthy_def)
next
  case False
  from buildIdMapping_resolved [OF assms(1,3) False]
  obtain g where "g \<in> set gids" "buildIdMapping incoming gids k = Some g" by auto
  with assms(2) False show ?thesis by (auto simp: lookupKey_def truthy_def)
qed

text \<open>The second pass.\<close>

lemma rel_remapField:
  "rel (remapField m g c) f = (if f = g then map_option (remapIds m) (rel c f) else rel c f)"
  by (simp add: remapField_def split: option.splits)

lemma rel_importOne:
  "rel (importOne now m S c) f
     = (if f \<in> rewrittenFields then map_option (remapIds m) (rel c f) else rel c f)"
  by (cases f) (simp_all add: importOne_def Let_def rel_remapField rewrittenFields_def)

lemma card_id_remapField: "card_id (remapField m g c) = card_id c"
  by (simp add: remapField_def split: option.splits)

lemma card_id_importOne: "card_id (importOne now m S c) = lookupKey m (keyOf (card_id c))"
  by (simp add: importOne_def Let_def card_id_remapField)

lemma fold_import_nth:
  "fold (\<lambda>c cs. cs @ [importOne now m cs c]) incoming cards
     = cards @ map (\<lambda>i. importOne now m
                          (fold (\<lambda>c cs. cs @ [importOne now m cs c]) (take i incoming) cards)
                          (incoming ! i)) [0 ..< length incoming]"
proof (induction incoming rule: rev_induct)
  case Nil
  then show ?case by simp
next
  case (snoc c incoming)
  have "map (\<lambda>i. importOne now m
                (fold (\<lambda>c cs. cs @ [importOne now m cs c]) (take i (incoming @ [c])) cards)
                ((incoming @ [c]) ! i)) [0 ..< length incoming]
        = map (\<lambda>i. importOne now m
                (fold (\<lambda>c cs. cs @ [importOne now m cs c]) (take i incoming) cards)
                (incoming ! i)) [0 ..< length incoming]"
    by (rule map_cong) (simp_all add: nth_append)
  with snoc show ?case by simp
qed

lemma importCards_shape:
  assumes "\<And>c x. h (c\<lparr> number := x \<rparr>) = h c" and "j < length incoming"
  shows "\<exists>result S. importCards now gids (Some incoming) cards = Inr result
           \<and> length result = length cards + length incoming
           \<and> h (result ! (length cards + j))
               = h (importOne now (buildIdMapping incoming gids) S (incoming ! j))"
proof -
  let ?m = "buildIdMapping incoming gids"
  let ?G = "\<lambda>i. importOne now ?m
                   (fold (\<lambda>c cs. cs @ [importOne now ?m cs c]) (take i incoming) cards)
                   (incoming ! i)"
  let ?cards1 = "cards @ map ?G [0 ..< length incoming]"
  let ?result = "ensureAllCardsHaveNumbers ?cards1"
  have res: "importCards now gids (Some incoming) cards = Inr ?result"
    by (simp add: importCards_def Let_def fold_import_nth [symmetric])
  have keep: "map h ?result = map h ?cards1" by (rule ensureAll_keeps [OF assms(1)])
  have "length (map h ?result) = length (map h ?cards1)" by (simp only: keep)
  then have len: "length ?result = length cards + length incoming" by simp
  with assms(2) have "h (?result ! (length cards + j)) = map h ?result ! (length cards + j)"
    by simp
  also have "\<dots> = map h ?cards1 ! (length cards + j)" by (simp only: keep)
  also have "\<dots> = h (?G j)" using assms(2) by (simp add: nth_append)
  finally show ?thesis using res len by blast
qed


text \<open>
  C8, as amended. Let \<open>generateId\<close> return the non-empty ids \<open>gids\<close>, one for each card
  of the file. The import succeeds and inserts one card for each card of the file; the
  card gets a generated id, unless its id in the file is \<^verbatim>\<open>__proto__\<close>. In each of
  \<open>adjacentLocations\<close>, \<open>presentCharacters\<close>, \<open>bonds\<close>, \<open>relatedLocations\<close> and
  \<open>relatedCharacters\<close> of an inserted card, a reference to a card of the file has become
  the id of the card inserted for it; a non-empty reference that is neither the id of a
  card of the file nor the name of a member of \<^verbatim>\<open>Object.prototype\<close> is kept as it is; an
  empty reference is dropped; and every string among the references is a generated id or
  such a kept reference.
\<close>

theorem importCards_rewrites_references:
  assumes len: "length gids = length incoming"
      and gen: "[] \<notin> set gids"
      and j: "j < length incoming"
      and f: "f \<in> rewrittenFields"
      and xs: "rel (incoming ! j) f = Some xs"
  shows "\<exists>result ys. importCards now gids (Some incoming) cards = Inr result
           \<and> length result = length cards + length incoming
           \<and> (\<forall>i < length incoming. keyOf (card_id (incoming ! i)) \<noteq> ''__proto__''
                 \<longrightarrow> (\<exists>g \<in> set gids. card_id (result ! (length cards + i)) = Some (Str g)))
           \<and> rel (result ! (length cards + j)) f = Some ys
           \<and> (\<forall>i < length incoming. Str (keyOf (card_id (incoming ! i))) \<in> set xs
                 \<longrightarrow> (\<exists>r \<in> set ys. card_id (result ! (length cards + i)) = Some r))
           \<and> (\<forall>s. Str s \<in> set xs \<and> s \<noteq> []
                     \<and> s \<notin> set (map (\<lambda>c. keyOf (card_id c)) incoming)
                     \<and> s \<notin> set objectPrototypeKeys
                 \<longrightarrow> Str s \<in> set ys)
           \<and> Str [] \<notin> set ys
           \<and> (\<forall>s. Str s \<in> set ys
                 \<longrightarrow> s \<in> set gids
                     \<or> (Str s \<in> set xs \<and> s \<notin> set (map (\<lambda>c. keyOf (card_id c)) incoming)))"
proof -
  let ?m = "buildIdMapping incoming gids"
  let ?keys = "set (map (\<lambda>c. keyOf (card_id c)) incoming)"
  from importCards_shape [of rel j incoming now gids cards, OF _ j]
  obtain result S where res: "importCards now gids (Some incoming) cards = Inr result"
    and rlen: "length result = length cards + length incoming"
    and r: "rel (result ! (length cards + j)) = rel (importOne now ?m S (incoming ! j))"
    by auto
  from r f xs have ys: "rel (result ! (length cards + j)) f = Some (remapIds ?m xs)"
    by (simp add: rel_importOne)
  have id_of: "\<And>i. i < length incoming \<Longrightarrow>
                 card_id (result ! (length cards + i))
                   = lookupKey ?m (keyOf (card_id (incoming ! i)))"
  proof -
    fix i
    assume i: "i < length incoming"
    from importCards_shape [of card_id i incoming now gids cards, OF _ i] res
    obtain S' where "card_id (result ! (length cards + i))
                       = card_id (importOne now ?m S' (incoming ! i))"
      by auto
    then show "card_id (result ! (length cards + i))
                 = lookupKey ?m (keyOf (card_id (incoming ! i)))"
      by (simp add: card_id_importOne)
  qed
  have ids: "\<forall>i < length incoming. keyOf (card_id (incoming ! i)) \<noteq> ''__proto__''
               \<longrightarrow> (\<exists>g \<in> set gids. card_id (result ! (length cards + i)) = Some (Str g))"
  proof (intro allI impI)
    fix i
    assume i: "i < length incoming" and np: "keyOf (card_id (incoming ! i)) \<noteq> ''__proto__''"
    from i have "keyOf (card_id (incoming ! i)) \<in> ?keys" by simp
    from lookupKey_file_id [OF len gen this] np id_of [OF i]
    show "\<exists>g \<in> set gids. card_id (result ! (length cards + i)) = Some (Str g)" by auto
  qed
  have resolved: "\<forall>i < length incoming. Str (keyOf (card_id (incoming ! i))) \<in> set xs
       \<longrightarrow> (\<exists>r \<in> set (remapIds ?m xs). card_id (result ! (length cards + i)) = Some r)"
  proof (intro allI impI)
    fix i
    assume i: "i < length incoming" and mem: "Str (keyOf (card_id (incoming ! i))) \<in> set xs"
    from i have "keyOf (card_id (incoming ! i)) \<in> ?keys" by simp
    from lookupKey_file_id [OF len gen this]
    obtain r where l: "lookupKey ?m (keyOf (card_id (incoming ! i))) = Some r"
      and t: "truthy r" by auto
    from l t have "remapId ?m (Str (keyOf (card_id (incoming ! i)))) = r"
      by (simp add: remapId_def refText_def)
    with mem t have "r \<in> set (remapIds ?m xs)" by (force simp: remapIds_def)
    with l id_of [OF i]
    show "\<exists>r \<in> set (remapIds ?m xs). card_id (result ! (length cards + i)) = Some r" by auto
  qed
  have unresolved: "\<forall>s. Str s \<in> set xs \<and> s \<noteq> [] \<and> s \<notin> ?keys \<and> s \<notin> set objectPrototypeKeys
                      \<longrightarrow> Str s \<in> set (remapIds ?m xs)"
  proof (intro allI impI)
    fix s
    assume h: "Str s \<in> set xs \<and> s \<noteq> [] \<and> s \<notin> ?keys \<and> s \<notin> set objectPrototypeKeys"
    from buildIdMapping_unresolved [OF len, of s] h have "?m s = None" by simp
    with h have "remapId ?m (Str s) = Str s"
      by (simp add: remapId_def refText_def lookupKey_def)
    with h show "Str s \<in> set (remapIds ?m xs)"
      by (force simp: remapIds_def truthy_def)
  qed
  have empty: "Str [] \<notin> set (remapIds ?m xs)"
    by (simp add: remapIds_def truthy_def)
  have only: "\<forall>s. Str s \<in> set (remapIds ?m xs)
                \<longrightarrow> s \<in> set gids \<or> (Str s \<in> set xs \<and> s \<notin> ?keys)"
  proof (intro allI impI)
    fix s
    assume "Str s \<in> set (remapIds ?m xs)"
    then obtain x where x: "x \<in> set xs" and y: "Str s = remapId ?m x"
      by (auto simp: remapIds_def)
    show "s \<in> set gids \<or> (Str s \<in> set xs \<and> s \<notin> ?keys)"
    proof (cases "?m (refText x)")
      case (Some g)
      from buildIdMapping_range [OF Some] have g: "g \<in> set gids" .
      with gen have "g \<noteq> []" by auto
      with Some y g show ?thesis by (simp add: remapId_def lookupKey_def truthy_def)
    next
      case None
      show ?thesis
      proof (cases "refText x \<in> set objectPrototypeKeys")
        case True
        with None y show ?thesis by (simp add: remapId_def lookupKey_def truthy_def)
      next
        case False
        with None y have same: "x = Str s" by (simp add: remapId_def lookupKey_def)
        then have t: "refText x = s" by (simp add: refText_def)
        have "s \<notin> ?keys"
        proof
          assume k: "s \<in> ?keys"
          from False t have "s \<noteq> ''__proto__''" by (auto simp: objectPrototypeKeys_def)
          from buildIdMapping_resolved [OF len k this] None t show False by auto
        qed
        with x same show ?thesis by simp
      qed
    qed
  qed
  from res rlen ids ys resolved unresolved empty only show ?thesis by blast
qed

text \<open>
  An instance: the event of \<open>linkedStore\<close> refers to the location \<open>L\<close>; imported with
  the new ids \<open>L2\<close> and \<open>E2\<close>, it refers to the card inserted for the location.
\<close>

theorem importCards_rewrites_references_witness:
  "rel (linkedStore ! 1) RelatedLocations = Some [Str ''L'']
   \<and> keyOf (card_id (linkedStore ! 0)) = ''L''
   \<and> (\<exists>result ys r. importCards 9 [''L2'', ''E2''] (Some linkedStore) [] = Inr result
          \<and> rel (result ! 1) RelatedLocations = Some ys
          \<and> card_id (result ! 0) = Some r \<and> r \<in> set ys)"
proof -
  have l: "length [''L2'', ''E2''] = length linkedStore" by code_simp
  have g: "[] \<notin> set [''L2'', ''E2'']" by simp
  have j: "1 < length linkedStore" using l by simp
  have f: "RelatedLocations \<in> rewrittenFields" by (simp add: rewrittenFields_def)
  have x: "rel (linkedStore ! 1) RelatedLocations = Some [Str ''L'']" by code_simp
  have k: "keyOf (card_id (linkedStore ! 0)) = ''L''" by code_simp
  from importCards_rewrites_references [OF l g j f x, of 9 "[]"]
  obtain result ys where r: "importCards 9 [''L2'', ''E2''] (Some linkedStore) [] = Inr result"
    and y: "rel (result ! (length ([]::card list) + 1)) RelatedLocations = Some ys"
    and a: "\<forall>i < length linkedStore.
              Str (keyOf (card_id (linkedStore ! i))) \<in> set [Str ''L'']
              \<longrightarrow> (\<exists>r \<in> set ys. card_id (result ! (length ([]::card list) + i)) = Some r)"
    by blast
  from a j k have "\<exists>r \<in> set ys. card_id (result ! 0) = Some r" by force
  with r y x k show ?thesis by auto
qed

text \<open>
  C8, as stated, fails: a reference that the mapping does not resolve is kept, by
  \<^verbatim>\<open>idMapping[id] || id\<close>, not dropped.
\<close>

theorem importCards_keeps_unresolved:
  "map card_id ghostStore = [Some (Str ''A2'')]
   \<and> map (\<lambda>c. rel c Bonds) ghostStore = [Some [Str ''ghost'']]"
  by code_simp

text \<open>
  A reference that names a member of \<^verbatim>\<open>Object.prototype\<close> becomes that member, an empty
  reference is dropped, and a reference to the card itself becomes its new id.
\<close>

lemma importCards_inherited_member:
  "map card_id memberStore = [Some (Str ''A2'')]
   \<and> map (\<lambda>c. rel c Bonds) memberStore = [Some [Member ''constructor'', Str ''A2'']]"
  by code_simp

text \<open>
  C7 fails on the code: \<open>importCards\<close> rewrites five of the seven relationship
  properties. The location's \<open>relatedEvents\<close> held the event's id; after the import it
  still holds the old id \<open>E\<close>, while the imported event has the id \<open>E2\<close>.
\<close>

theorem importCards_loses_edge:
  "map card_id linkedStore = [Some (Str ''L''), Some (Str ''E'')]
   \<and> map (\<lambda>c. rel c RelatedEvents) linkedStore = [Some [Str ''E''], None]
   \<and> map card_id importedStore = [Some (Str ''L2''), Some (Str ''E2'')]
   \<and> map (\<lambda>c. rel c RelatedEvents) importedStore = [Some [Str ''E''], None]
   \<and> map (\<lambda>c. rel c RelatedLocations) importedStore = [None, Some [Str ''L2'']]"
  by code_simp

end
